theory Spec2Isabelle
  imports Complex_Main "HOL-Library.AList"
begin

section \<open>Strings and character classes\<close>

text \<open>
  A Python \<open>str\<close> is a sequence of Unicode code points and \<open>len\<close> counts code points,
  so a string is a list of code points here. \<open>lit\<close> turns a literal of the source
  (all of them ASCII) into such a list.
\<close>

type_synonym ustr = "nat list"

definition lit :: "string \<Rightarrow> ustr" where
  "lit s = map of_char s"

text \<open>
  The predicates \<open>str.isupper\<close>, \<open>str.islower\<close>, \<open>str.isdigit\<close>, \<open>str.isalpha\<close>,
  \<open>str.isspace\<close> on one character, and the class \<open>\w\<close> of module \<open>re\<close>, are tables of
  the Python runtime, not code of the repository: they are a parameter of every
  function that consults them.
\<close>

record chartab =
  isupper :: "nat \<Rightarrow> bool"
  islower :: "nat \<Rightarrow> bool"
  isdigit :: "nat \<Rightarrow> bool"
  isalpha :: "nat \<Rightarrow> bool"
  isspace :: "nat \<Rightarrow> bool"
  isword :: "nat \<Rightarrow> bool"

text \<open>
  A concrete table for evaluating examples. It is CPython 3's classification on the
  code points below 128 and on U+4E2D (a CJK ideograph: alphabetic, a word character,
  neither upper nor lower case); no other code point is classified, and the examples
  stay inside that range.
\<close>

definition ucd_sample :: chartab where
  "ucd_sample = \<lparr>
     isupper = (\<lambda>c. 65 \<le> c \<and> c \<le> 90),
     islower = (\<lambda>c. 97 \<le> c \<and> c \<le> 122),
     isdigit = (\<lambda>c. 48 \<le> c \<and> c \<le> 57),
     isalpha = (\<lambda>c. (65 \<le> c \<and> c \<le> 90) \<or> (97 \<le> c \<and> c \<le> 122) \<or> c = 20013),
     isspace = (\<lambda>c. (9 \<le> c \<and> c \<le> 13) \<or> (28 \<le> c \<and> c \<le> 32)),
     isword = (\<lambda>c. (48 \<le> c \<and> c \<le> 57) \<or> (65 \<le> c \<and> c \<le> 90) \<or> c = 95
                  \<or> (97 \<le> c \<and> c \<le> 122) \<or> c = 20013) \<rparr>"

text \<open>\<open>string.replace(' ', '')\<close>: every occurrence of the space character U+0020 goes.\<close>

definition replace_space :: "ustr \<Rightarrow> ustr" where
  "replace_space s = filter (\<lambda>c. c \<noteq> 32) s"

text \<open>
  \<open>re.sub(r'[\w]+', '', string)\<close>: every maximal run of word characters is replaced by
  the empty string, which leaves the characters that are not word characters.
\<close>

definition re_sub_word :: "chartab \<Rightarrow> ustr \<Rightarrow> ustr" where
  "re_sub_word U s = filter (\<lambda>c. \<not> isword U c) s"

text \<open>
  \<open>string.split()\<close> without a separator: runs of whitespace separate the words, and
  leading and trailing whitespace gives no empty word.
\<close>

function split :: "chartab \<Rightarrow> ustr \<Rightarrow> ustr list" where
  "split U s =
     (case dropWhile (isspace U) s of
        [] \<Rightarrow> []
      | c # cs \<Rightarrow> takeWhile (\<lambda>x. \<not> isspace U x) (c # cs)
                 # split U (dropWhile (\<lambda>x. \<not> isspace U x) cs))"
  by pat_completeness auto
termination
proof (relation "measure (\<lambda>(U, s). length s)")
  show "wf (measure (\<lambda>(U, s). length s))" by simp
next
  fix U :: chartab and s :: ustr and c cs
  assume d: "dropWhile (isspace U) s = c # cs"
  have "length (dropWhile (\<lambda>x. \<not> isspace U x) cs) \<le> length cs"
    by (rule length_dropWhile_le)
  moreover have "length (c # cs) \<le> length s"
    using length_dropWhile_le [of "isspace U" s] d by simp
  ultimately show "((U, dropWhile (\<lambda>x. \<not> isspace U x) cs), (U, s)) \<in> measure (\<lambda>(U, s). length s)"
    by simp
qed

declare split.simps [simp del]

section \<open>The statistics of one value\<close>

text \<open>
  The static methods of \<open>TextSpecialFeatureGenerator\<close>. A count is a Python \<open>int\<close>. A
  ratio is the quotient of two such counts, a Python \<open>float\<close>; it is represented by the
  exact rational that the float rounds (the rounding to a double is not modelled), and
  the \<open>int\<close> 0 that the empty case returns is the rational 0.
\<close>

definition word_count :: "chartab \<Rightarrow> ustr \<Rightarrow> int" where
  "word_count U string = int (length (split U string))"

definition char_count :: "ustr \<Rightarrow> int" where
  "char_count string = int (length string)"

definition special_ratio :: "chartab \<Rightarrow> ustr \<Rightarrow> rat" where
  "special_ratio U string =
     (let string = replace_space string in
      if string = [] then 0
      else let new_str = re_sub_word U string
           in of_nat (length new_str) / of_nat (length string))"

definition digit_ratio :: "chartab \<Rightarrow> ustr \<Rightarrow> rat" where
  "digit_ratio U string =
     (let string = replace_space string in
      if string = [] then 0
      else of_nat (length (filter (isdigit U) string)) / of_nat (length string))"

definition lower_ratio :: "chartab \<Rightarrow> ustr \<Rightarrow> rat" where
  "lower_ratio U string =
     (let string = replace_space string in
      if string = [] then 0
      else of_nat (length (filter (islower U) string)) / of_nat (length string))"

definition capital_ratio :: "chartab \<Rightarrow> ustr \<Rightarrow> rat" where
  "capital_ratio U string =
     (let string = replace_space string in
      if string = [] then 0
      else of_nat (length (filter (isupper U) string)) / of_nat (length string))"

text \<open>
  \<open>symbol_in_string_count\<close>: each \<open>c\<close> of the loop is a string of one character, and it
  is compared with the whole of \<open>character\<close>.
\<close>

definition symbol_in_string_count :: "ustr \<Rightarrow> ustr \<Rightarrow> int" where
  "symbol_in_string_count string character =
     (if string = [] then 0
      else int (length (filter (\<lambda>c. [c] = character) string)))"

section \<open>Errors\<close>

text \<open>
  The exceptions that the code raises, or that pandas raises under it. \<open>NonUniqueLabel\<close>
  is not an exception: it marks the one path that this development does not follow.
  Where a column label occurs more than once in a frame, \<open>X[label]\<close> is a DataFrame
  and not a Series, and the loops \<open>for value in X\<close> would run over column labels; the
  model stops there.
\<close>

datatype error =
    AssertionError string
  | NotImplementedError
  | KeyError
  | ValueError
  | NonUniqueLabel

definition andthen :: "error + 'a \<Rightarrow> ('a \<Rightarrow> error + 'b) \<Rightarrow> error + 'b" where
  "andthen m f = (case m of Inl e \<Rightarrow> Inl e | Inr x \<Rightarrow> f x)"

text \<open>A comprehension or loop whose body may raise: it stops at the first exception.\<close>

fun for_each :: "('a \<Rightarrow> error + 'b) \<Rightarrow> 'a list \<Rightarrow> error + 'b list" where
  "for_each f [] = Inr []"
| "for_each f (x # xs) =
     andthen (f x) (\<lambda>y. andthen (for_each f xs) (\<lambda>ys. Inr (y # ys)))"

section \<open>Tables\<close>

text \<open>
  A pandas DataFrame: the row index and, in column order, the labelled columns (a label
  may occur more than once). The cells of an input table are strings; the cells of an
  output table are numbers.
\<close>

record ('i, 'a) frame =
  index :: "'i list"
  data :: "(ustr \<times> 'a list) list"

text \<open>A Series: its index and its values.\<close>

type_synonym ('i, 'a) series = "'i list \<times> 'a list"

definition columns :: "('i, 'a) frame \<Rightarrow> ustr list" where
  "columns X = map fst (data X)"

text \<open>Every column of a DataFrame is as long as the index.\<close>

definition wf_frame :: "('i, 'a) frame \<Rightarrow> bool" where
  "wf_frame X = list_all (\<lambda>p. length (snd p) = length (index X)) (data X)"

text \<open>\<open>DataFrame(index=idx)\<close>: no column.\<close>

definition DataFrame :: "'i list \<Rightarrow> ('i, 'a) frame" where
  "DataFrame idx = \<lparr> index = idx, data = [] \<rparr>"

text \<open>\<open>X[label]\<close>: the column of that label; a missing label is a KeyError.\<close>

definition getitem :: "('i, 'a) frame \<Rightarrow> ustr \<Rightarrow> error + ('i, 'a) series" where
  "getitem X label =
     (case filter (\<lambda>p. fst p = label) (data X) of
        [] \<Rightarrow> Inl KeyError
      | [p] \<Rightarrow> Inr (index X, snd p)
      | _ \<Rightarrow> Inl NonUniqueLabel)"

text \<open>
  \<open>X[labels]\<close> for a list of labels: for each label in turn, the columns of that label;
  a missing label is a KeyError. \<open>X[None]\<close> is a KeyError.
\<close>

definition getitem_list :: "('i, 'a) frame \<Rightarrow> ustr list option \<Rightarrow> error + ('i, 'a) frame" where
  "getitem_list X labels =
     (case labels of
        None \<Rightarrow> Inl KeyError
      | Some ls \<Rightarrow>
          if list_all (\<lambda>l. l \<in> set (columns X)) ls
          then Inr (X\<lparr>data := concat (map (\<lambda>l. filter (\<lambda>p. fst p = l) (data X)) ls)\<rparr>)
          else Inl KeyError)"

text \<open>
  \<open>X[label] = values\<close>: the column of that label is replaced where it stands, a new
  label is appended as the last column. Values of another length than the index are a
  ValueError (pandas re-indexes a frame whose index is empty instead; a column as long as
  the index never gets there).
\<close>

definition setitem :: "('i, 'a) frame \<Rightarrow> ustr \<Rightarrow> 'a list \<Rightarrow> error + ('i, 'a) frame" where
  "setitem X label vs =
     (if length vs \<noteq> length (index X) then Inl ValueError
      else Inr (X\<lparr>data := AList.update label vs (data X)\<rparr>))"

text \<open>
  \<open>pd.concat(frames, axis=1)\<close> of frames that all carry the index of the first: the
  columns of all of them, in order, duplicates kept. An empty list is a ValueError.
\<close>

definition concat_axis1 :: "('i, 'a) frame list \<Rightarrow> error + ('i, 'a) frame" where
  "concat_axis1 Xs =
     (case Xs of
        [] \<Rightarrow> Inl ValueError
      | X # _ \<Rightarrow> Inr \<lparr> index = index X, data = concat (map data Xs) \<rparr>)"

section \<open>Numeric cells\<close>

text \<open>
  A cell of an int64 or float64 column: a number, an infinity or NaN. Finite floats are
  the rationals they round.
\<close>

datatype cell = Num rat | PosInf | NegInf | NaN

text \<open>
  Division of one cell by another as numpy does it under pandas: a finite number by zero
  is an infinity of its sign, zero by zero is NaN, and no exception is raised.
\<close>

fun cell_div :: "cell \<Rightarrow> cell \<Rightarrow> cell" where
  "cell_div (Num a) (Num b) =
     (if b = 0 then (if a = 0 then NaN else if 0 < a then PosInf else NegInf)
      else Num (a / b))"
| "cell_div NaN _ = NaN"
| "cell_div _ NaN = NaN"
| "cell_div (Num a) _ = Num 0"
| "cell_div PosInf (Num b) = (if b < 0 then NegInf else PosInf)"
| "cell_div NegInf (Num b) = (if b < 0 then PosInf else NegInf)"
| "cell_div _ _ = NaN"

text \<open>\<open>a / b\<close> for two Series on the same index: cell by cell.\<close>

definition series_div :: "('i, cell) series \<Rightarrow> ('i, cell) series \<Rightarrow> cell list" where
  "series_div a b = map (\<lambda>(x, y). cell_div x y) (zip (snd a) (snd b))"

text \<open>\<open>X[label].fillna(v, inplace=True)\<close>: the NaN cells of that column become \<open>v\<close>.\<close>

definition fillna_cell :: "rat \<Rightarrow> cell \<Rightarrow> cell" where
  "fillna_cell v c = (case c of NaN \<Rightarrow> Num v | _ \<Rightarrow> c)"

definition fillna_inplace :: "('i, cell) frame \<Rightarrow> ustr \<Rightarrow> rat \<Rightarrow> error + ('i, cell) frame" where
  "fillna_inplace X label v =
     andthen (getitem X label)
       (\<lambda>s. Inr (X\<lparr>data := AList.update label (map (fillna_cell v) (snd s)) (data X)\<rparr>))"

section \<open>The generators\<close>

text \<open>
  The state of a generator object. The class of the object decides which
  \<open>_fit_transform\<close> and \<open>_transform\<close> run; a \<open>TextSpecialFeatureGenerator\<close> carries its
  \<open>_symbols\<close>. Method names that begin with an underscore in the source are written
  without it, and \<open>_fit_transform\<close>, \<open>_transform\<close> are \<open>do_fit_transform\<close>,
  \<open>do_transform\<close>.

  The constructor of \<open>TextSpecialFeatureGenerator\<close> hands \<open>post_drop_duplicates\<close> to the
  base constructor and reads \<open>_post_generators\<close>, which the base class among the sources
  does not have (it belongs to a later base class); the model takes the object as the
  base constructor builds it, with the symbols added, and follows the methods from there.

  \<open>get_type_family_groups_df\<close> and \<open>FeatureTypesMetadata\<close> are imported from modules
  that are not among the sources: the first is a parameter \<open>T\<close> of \<open>fit_transform\<close>, the
  second is the record of its two arguments.
\<close>

datatype klass =
    AbstractFeatureGenerator
  | TextSpecialFeatureGenerator "ustr list"

record 'r FeatureTypesMetadata =
  feature_types_raw :: 'r
  feature_types_special :: "ustr \<rightharpoonup> ustr list"

record 'r generator =
  klass :: klass
  is_fit :: bool
  feature_types_metadata :: "'r FeatureTypesMetadata option"
  features_in :: "ustr list option"
  features_out :: "ustr list option"

text \<open>
  Modelled from the spec: the constant \<open>S_TEXT_SPECIAL\<close> of module \<open>feature_metadata\<close>,
  which is not among the sources. It is the label of the one special type; the
  docstring of the class writes it \<open>'text_special'\<close>.
\<close>

definition S_TEXT_SPECIAL :: ustr where
  "S_TEXT_SPECIAL = lit ''text_special''"

text \<open>The loop over \<open>self._symbols\<close> in \<open>_generate_text_special\<close>.\<close>

fun symbol_loop ::
  "('i, cell) frame \<Rightarrow> ('i, ustr) series \<Rightarrow> ustr \<Rightarrow> ustr list \<Rightarrow> error + ('i, cell) frame" where
  "symbol_loop X_text_special X feature [] = Inr X_text_special"
| "symbol_loop X_text_special X feature (symbol # symbols) =
     andthen (setitem X_text_special (feature @ lit ''.symbol_count.'' @ symbol)
                (map (\<lambda>value. Num (of_int (symbol_in_string_count value symbol))) (snd X)))
       (\<lambda>F1.
     andthen (getitem F1 (feature @ lit ''.symbol_count.'' @ symbol)) (\<lambda>cnt.
     andthen (getitem F1 (feature @ lit ''.char_count'')) (\<lambda>cc.
     andthen (setitem F1 (feature @ lit ''.symbol_ratio.'' @ symbol) (series_div cnt cc))
       (\<lambda>F2.
     andthen (fillna_inplace F2 (feature @ lit ''.symbol_ratio.'' @ symbol) 0)
       (\<lambda>F3. symbol_loop F3 X feature symbols)))))"

definition generate_text_special ::
  "chartab \<Rightarrow> ustr list \<Rightarrow> ('i, ustr) series \<Rightarrow> ustr \<Rightarrow> error + ('i, cell) frame" where
  "generate_text_special U symbols X feature =
     andthen (setitem (DataFrame (fst X)) (feature @ lit ''.char_count'')
                (map (\<lambda>value. Num (of_int (char_count value))) (snd X))) (\<lambda>F.
     andthen (setitem F (feature @ lit ''.word_count'')
                (map (\<lambda>value. Num (of_int (word_count U value))) (snd X))) (\<lambda>F.
     andthen (setitem F (feature @ lit ''.capital_ratio'')
                (map (\<lambda>value. Num (capital_ratio U value)) (snd X))) (\<lambda>F.
     andthen (setitem F (feature @ lit ''.lower_ratio'')
                (map (\<lambda>value. Num (lower_ratio U value)) (snd X))) (\<lambda>F.
     andthen (setitem F (feature @ lit ''.digit_ratio'')
                (map (\<lambda>value. Num (digit_ratio U value)) (snd X))) (\<lambda>F.
     andthen (setitem F (feature @ lit ''.special_ratio'')
                (map (\<lambda>value. Num (special_ratio U value)) (snd X))) (\<lambda>F.
     symbol_loop F X feature symbols))))))"

text \<open>\<open>if self.features_in:\<close> holds for a list that is not empty; \<open>None\<close> and \<open>[]\<close> fail it.\<close>

definition generate_features_text_special ::
  "chartab \<Rightarrow> ustr list \<Rightarrow> 'r generator \<Rightarrow> ('i, ustr) frame \<Rightarrow> error + ('i, cell) frame" where
  "generate_features_text_special U symbols self X =
     (case features_in self of
        Some (f # fs) \<Rightarrow>
          andthen (for_each (\<lambda>nlp_feature.
                      andthen (getitem X nlp_feature)
                        (\<lambda>S. generate_text_special U symbols S nlp_feature)) (f # fs))
            concat_axis1
      | _ \<Rightarrow> Inr (DataFrame (index X)))"

definition do_transform ::
  "chartab \<Rightarrow> 'r generator \<Rightarrow> ('i, ustr) frame \<Rightarrow> error + ('i, cell) frame" where
  "do_transform U self X =
     (case klass self of
        AbstractFeatureGenerator \<Rightarrow> Inl NotImplementedError
      | TextSpecialFeatureGenerator symbols \<Rightarrow> generate_features_text_special U symbols self X)"

definition do_fit_transform ::
  "chartab \<Rightarrow> 'r generator \<Rightarrow> ('i, ustr) frame
     \<Rightarrow> error + (('i, cell) frame \<times> (ustr \<rightharpoonup> ustr list))" where
  "do_fit_transform U self X =
     (case klass self of
        AbstractFeatureGenerator \<Rightarrow> Inl NotImplementedError
      | TextSpecialFeatureGenerator symbols \<Rightarrow>
          andthen (do_transform U self X) (\<lambda>X_out.
            Inr (X_out, [S_TEXT_SPECIAL \<mapsto> columns X_out])))"

text \<open>
  The public methods return what the call returns or raises, and the object as the call
  leaves it.
\<close>

definition fit :: "'r generator \<Rightarrow> ('i, ustr) frame \<Rightarrow> (error + unit) \<times> 'r generator" where
  "fit self X = (Inl NotImplementedError, self)"

definition fit_transform ::
  "chartab \<Rightarrow> (('i, cell) frame \<Rightarrow> 'r) \<Rightarrow> 'r generator \<Rightarrow> ('i, ustr) frame
     \<Rightarrow> (error + ('i, cell) frame) \<times> 'r generator" where
  "fit_transform U T self X =
     (if is_fit self then (Inl (AssertionError ''FeatureGenerator is already fit.''), self)
      else
        let self = (if features_in self = None then self\<lparr>features_in := Some (columns X)\<rparr>
                    else self)
        in case andthen (getitem_list X (features_in self)) (do_fit_transform U self) of
             Inl e \<Rightarrow> (Inl e, self)
           | Inr (X_out, type_family_groups_special) \<Rightarrow>
               (Inr X_out,
                self\<lparr>features_out := Some (columns X_out),
                     feature_types_metadata :=
                       Some \<lparr>feature_types_raw = T X_out,
                             feature_types_special = type_family_groups_special\<rparr>,
                     is_fit := True\<rparr>))"

definition transform ::
  "chartab \<Rightarrow> 'r generator \<Rightarrow> ('i, ustr) frame \<Rightarrow> (error + ('i, cell) frame) \<times> 'r generator" where
  "transform U self X =
     (if \<not> is_fit self then (Inl (AssertionError ''FeatureGenerator is not fit.''), self)
      else (andthen (getitem_list X (features_in self)) (do_transform U self), self))"

section \<open>What the specification says, for comparison\<close>

text \<open>
  The number of whitespace-delimited tokens of a string: the number of places where a
  token begins, that is, a character that is not whitespace and stands first or after
  a whitespace character.
\<close>

definition token_count :: "chartab \<Rightarrow> ustr \<Rightarrow> nat" where
  "token_count U s =
     length (filter (\<lambda>i. \<not> isspace U (s ! i) \<and> (i = 0 \<or> isspace U (s ! (i - 1))))
               [0 ..< length s])"

text \<open>
  The column names that the specification lists for one input column, and for all of
  them: the six fixed statistics, then count and ratio of each symbol.
\<close>

definition statistic_names :: "ustr list \<Rightarrow> ustr list" where
  "statistic_names symbols =
     map lit [''char_count'', ''word_count'', ''capital_ratio'', ''lower_ratio'',
              ''digit_ratio'', ''special_ratio'']
     @ concat (map (\<lambda>s. [lit ''symbol_count.'' @ s, lit ''symbol_ratio.'' @ s]) symbols)"

definition expected_columns :: "ustr list \<Rightarrow> ustr list \<Rightarrow> ustr list" where
  "expected_columns features symbols =
     concat (map (\<lambda>f. map (\<lambda>st. f @ lit ''.'' @ st) (statistic_names symbols)) features)"

text \<open>A string is alphabetic (\<open>str.isalpha\<close>): it is not empty and all its characters are.\<close>

definition str_isalpha :: "chartab \<Rightarrow> ustr \<Rightarrow> bool" where
  "str_isalpha U s = (s \<noteq> [] \<and> list_all (isalpha U) s)"

section \<open>Objects and tables of the examples\<close>

text \<open>
  \<open>AbstractFeatureGenerator.__init__\<close>: a fresh object of the given class, not fit,
  with the input columns it was given (or \<open>None\<close>).
\<close>

definition init :: "klass \<Rightarrow> ustr list option \<Rightarrow> 'r generator" where
  "init k fi =
     \<lparr>klass = k, is_fit = False, feature_types_metadata = None,
      features_in = fi, features_out = None\<rparr>"

text \<open>
  The end-to-end example of the specification: one column \<open>text\<close> with the rows
  \<open>"Hello World!"\<close>, \<open>""\<close> and \<open>"abc123"\<close>, and the symbols \<open>'!'\<close> and \<open>'a'\<close>.
  \<open>ex_fitted\<close> is the generator after its \<open>fit_transform\<close> on that table.
\<close>

definition ex_table :: "(nat, ustr) frame" where
  "ex_table = \<lparr>index = [0, 1, 2],
               data = [(lit ''text'', [lit ''Hello World!'', [], lit ''abc123''])]\<rparr>"

definition ex_symbols :: "ustr list" where
  "ex_symbols = [lit ''!'', lit ''a'']"

definition ex_gen :: "ustr list \<Rightarrow> unit generator" where
  "ex_gen symbols = init (TextSpecialFeatureGenerator symbols) (Some [lit ''text''])"

definition ex_fitted :: "ustr list \<Rightarrow> unit generator" where
  "ex_fitted symbols = snd (fit_transform ucd_sample (\<lambda>X_out. ()) (ex_gen symbols) ex_table)"

definition ex_fitted_empty :: "unit generator" where
  "ex_fitted_empty = snd (fit_transform ucd_sample (\<lambda>X_out. ())
       (init (TextSpecialFeatureGenerator ex_symbols) (Some [])) ex_table)"

definition ex_abstract :: "unit generator" where
  "ex_abstract = init AbstractFeatureGenerator None"

section \<open>Auxiliary definitions\<close>

text \<open>
  The token starts of a string, counted with the information whether the character
  before the string is whitespace; \<open>token_count\<close> is the case where it is.
\<close>

definition starts :: "chartab \<Rightarrow> bool \<Rightarrow> ustr \<Rightarrow> nat" where
  "starts U prev s = length (filter (\<lambda>i. \<not> isspace U (s ! i) \<and> (if i = 0 then prev else isspace U (s ! (i - 1)))) [0 ..< length s])"

text \<open>
  The columns that \<open>_generate_text_special\<close> writes for a list of values, and the frame
  data they add up to: each round of the symbol loop is one \<open>symbol_step\<close>.
\<close>

definition char_count_col :: "ustr list \<Rightarrow> cell list" where
  "char_count_col vals = map (\<lambda>value. Num (of_int (char_count value))) vals"

definition symbol_count_col :: "ustr list \<Rightarrow> ustr \<Rightarrow> cell list" where
  "symbol_count_col vals s = map (\<lambda>value. Num (of_int (symbol_in_string_count value s))) vals"

definition symbol_ratio_col :: "ustr list \<Rightarrow> ustr \<Rightarrow> cell list" where
  "symbol_ratio_col vals s =
     map (fillna_cell 0) (map (\<lambda>(x, y). cell_div x y) (zip (symbol_count_col vals s) (char_count_col vals)))"

definition symbol_step :: "ustr \<Rightarrow> ustr list \<Rightarrow> (ustr \<times> cell list) list \<Rightarrow> ustr \<Rightarrow> (ustr \<times> cell list) list" where
  "symbol_step feature vals d s =
     AList.update (feature @ lit ''.symbol_ratio.'' @ s) (symbol_ratio_col vals s)
       (AList.update (feature @ lit ''.symbol_count.'' @ s) (symbol_count_col vals s) d)"

definition fixed_block :: "chartab \<Rightarrow> ustr \<Rightarrow> ustr list \<Rightarrow> (ustr \<times> cell list) list" where
  "fixed_block U feature vals =
     [(feature @ lit ''.char_count'', char_count_col vals),
      (feature @ lit ''.word_count'', map (\<lambda>value. Num (of_int (word_count U value))) vals),
      (feature @ lit ''.capital_ratio'', map (\<lambda>value. Num (capital_ratio U value)) vals),
      (feature @ lit ''.lower_ratio'', map (\<lambda>value. Num (lower_ratio U value)) vals),
      (feature @ lit ''.digit_ratio'', map (\<lambda>value. Num (digit_ratio U value)) vals),
      (feature @ lit ''.special_ratio'', map (\<lambda>value. Num (special_ratio U value)) vals)]"

definition feature_block :: "chartab \<Rightarrow> ustr list \<Rightarrow> ustr \<Rightarrow> ustr list \<Rightarrow> (ustr \<times> cell list) list" where
  "feature_block U symbols feature vals = foldl (symbol_step feature vals) (fixed_block U feature vals) symbols"

text \<open>
  A label that names exactly one column of a table, the values of that column, and the
  data of the table that the transform step builds from such columns.
\<close>

definition unique_label :: "('i, 'a) frame \<Rightarrow> ustr \<Rightarrow> bool" where
  "unique_label X l = (length (filter (\<lambda>p. fst p = l) (data X)) = 1)"

definition column :: "('i, 'a) frame \<Rightarrow> ustr \<Rightarrow> 'a list" where
  "column X l = (case filter (\<lambda>p. fst p = l) (data X) of [p] \<Rightarrow> snd p | _ \<Rightarrow> [])"

definition transformed_data :: "chartab \<Rightarrow> ustr list \<Rightarrow> ustr list \<Rightarrow> ('i, ustr) frame \<Rightarrow> (ustr \<times> cell list) list" where
  "transformed_data U symbols features X =
     concat (map (\<lambda>f. feature_block U symbols f (column X f)) features)"

text \<open>
  What the specification says of the output, for comparison: for one input column, the
  six statistics and then count and ratio of each symbol, each column holding in row
  \<open>r\<close> the statistic of the input value of row \<open>r\<close>; for the table, these blocks in
  the order of the input columns, on the row index of the input.
\<close>

definition expected_block :: "chartab \<Rightarrow> ustr list \<Rightarrow> ustr \<Rightarrow> ustr list \<Rightarrow> (ustr \<times> cell list) list" where
  "expected_block U symbols f vals =
     [(f @ lit ''.char_count'', map (\<lambda>v. Num (of_int (char_count v))) vals),
      (f @ lit ''.word_count'', map (\<lambda>v. Num (of_int (word_count U v))) vals),
      (f @ lit ''.capital_ratio'', map (\<lambda>v. Num (capital_ratio U v)) vals),
      (f @ lit ''.lower_ratio'', map (\<lambda>v. Num (lower_ratio U v)) vals),
      (f @ lit ''.digit_ratio'', map (\<lambda>v. Num (digit_ratio U v)) vals),
      (f @ lit ''.special_ratio'', map (\<lambda>v. Num (special_ratio U v)) vals)]
     @ concat (map (\<lambda>s.
         [(f @ lit ''.symbol_count.'' @ s,
           map (\<lambda>v. Num (of_int (symbol_in_string_count v s))) vals),
          (f @ lit ''.symbol_ratio.'' @ s,
           map (\<lambda>v. Num (if char_count v = 0 then 0
                          else of_int (symbol_in_string_count v s) / of_int (char_count v))) vals)])
         symbols)"

definition expected_table :: "chartab \<Rightarrow> ustr list \<Rightarrow> ustr list \<Rightarrow> ('i, ustr) frame \<Rightarrow> ('i, cell) frame" where
  "expected_table U features symbols X =
     \<lparr>index = index X,
      data = concat (map (\<lambda>f. expected_block U symbols f (column X f)) features)\<rparr>"

text \<open>The call ended in an \<open>AssertionError\<close>.\<close>

definition raises_assertion :: "error + 'a \<Rightarrow> bool" where
  "raises_assertion r = (case r of Inl (AssertionError m) \<Rightarrow> True | _ \<Rightarrow> False)"

section \<open>Counting characters and words\<close>

lemma starts_Nil: "starts U prev [] = 0" by (simp add: starts_def)

lemma starts_Cons: "starts U prev (c # cs) = (if \<not> isspace U c \<and> prev then 1 else 0) + starts U (isspace U c) cs"
proof -
  have "[0 ..< length (c # cs)] = 0 # map Suc [0 ..< length cs]"
    by (simp add: upt_conv_Cons map_Suc_upt del: upt_Suc)
  then show ?thesis
    by (simp add: starts_def filter_map o_def nth_Cons' del: upt_Suc cong: if_cong)
qed

lemma token_count_starts: "token_count U s = starts U True s"
  unfolding token_count_def starts_def
  by (rule arg_cong[where f=length], rule filter_cong) auto

lemma starts_dropWhile_space: "starts U True (dropWhile (isspace U) s) = starts U True s"
  by (induction s) (simp_all add: starts_Cons)

lemma starts_dropWhile_word: "starts U True (dropWhile (\<lambda>x. \<not> isspace U x) s) = starts U False s"
  by (induction s) (simp_all add: starts_Cons starts_Nil)

lemma length_split: "length (split U s) = starts U True s"
proof (induction U s rule: split.induct)
  case (1 U s)
  show ?case
  proof (cases "dropWhile (isspace U) s")
    case Nil
    have "starts U True s = starts U True (dropWhile (isspace U) s)"
      by (rule starts_dropWhile_space [symmetric])
    then have "starts U True s = 0" unfolding Nil by (simp only: starts_Nil)
    moreover have "split U s = []" by (subst split.simps) (simp only: Nil list.case)
    ultimately show ?thesis by simp
  next
    case (Cons c cs)
    then have nsp: "\<not> isspace U c" using hd_dropWhile[of "isspace U" s] by simp
    have "length (split U s) = Suc (length (split U (dropWhile (\<lambda>x. \<not> isspace U x) cs)))"
      using Cons by (subst split.simps) simp
    also have "\<dots> = Suc (starts U False cs)"
      using 1[OF Cons] by (simp add: starts_dropWhile_word)
    also have "\<dots> = starts U True (c # cs)" using nsp by (simp add: starts_Cons)
    also have "\<dots> = starts U True s" using Cons starts_dropWhile_space[of U s] by simp
    finally show ?thesis .
  qed
qed

text \<open>
  Claim C9. For every string value, \<open>char_count\<close> is the number of characters of the
  value, and \<open>word_count\<close> is the number of its whitespace-delimited tokens: the length
  of what \<open>split\<close> returns is the number of places where a token begins.
\<close>

theorem char_count_word_count: "char_count s = int (length s) \<and> word_count U s = int (token_count U s)"
  by (simp add: char_count_def word_count_def length_split token_count_starts)

text \<open>The first row of the example: twelve characters, two words.\<close>

theorem char_count_word_count_witness:
  "char_count (lit ''Hello World!'') = 12 \<and> word_count ucd_sample (lit ''Hello World!'') = 2
   \<and> token_count ucd_sample (lit ''Hello World!'') = 2"
proof -
  have "token_count ucd_sample (lit ''Hello World!'') = 2"
    by (simp add: token_count_def lit_def ucd_sample_def upt_conv_Cons)
  then show ?thesis using char_count_word_count [of "lit ''Hello World!''" ucd_sample] by (simp add: lit_def)
qed

section \<open>The ratios of one value\<close>

text \<open>
  Claim C4. For every string value whose form after removing all space characters is
  empty, \<open>capital_ratio\<close>, \<open>lower_ratio\<close>, \<open>digit_ratio\<close> and \<open>special_ratio\<close> of that
  value are all 0.
\<close>

theorem stripped_empty_ratios_zero: "replace_space s = [] \<Longrightarrow>
  capital_ratio U s = 0 \<and> lower_ratio U s = 0 \<and> digit_ratio U s = 0 \<and> special_ratio U s = 0"
  by (simp add: capital_ratio_def lower_ratio_def digit_ratio_def special_ratio_def)

text \<open>A value of three spaces.\<close>

theorem stripped_empty_ratios_zero_witness:
  "replace_space (lit ''   '') = [] \<and> capital_ratio ucd_sample (lit ''   '') = 0
   \<and> lower_ratio ucd_sample (lit ''   '') = 0 \<and> digit_ratio ucd_sample (lit ''   '') = 0
   \<and> special_ratio ucd_sample (lit ''   '') = 0"
proof -
  have h: "replace_space (lit ''   '') = []" by (simp add: replace_space_def lit_def)
  show ?thesis using h stripped_empty_ratios_zero [OF h, of ucd_sample] by simp
qed

lemma count_upper_lower:
  assumes "\<forall>c. \<not> (isupper U c \<and> islower U c)"
  shows "length (filter (isupper U) s) + length (filter (islower U) s) \<le> length s"
    and "list_all (\<lambda>c. isupper U c \<or> islower U c) s \<Longrightarrow>
         length (filter (isupper U) s) + length (filter (islower U) s) = length s"
  using assms by (induction s) auto

text \<open>
  Claim C5, as amended. Where no character is both upper and lower case (as in Unicode),
  \<open>capital_ratio + lower_ratio\<close> is at most 1 for every string value, and it is 1
  whenever the space-stripped string is not empty and each of its characters is upper
  case or lower case. The ratios are the exact quotients.
\<close>

theorem capital_plus_lower_ratio:
  assumes "\<forall>c. \<not> (isupper U c \<and> islower U c)"
  shows "capital_ratio U s + lower_ratio U s \<le> 1
     \<and> (replace_space s \<noteq> [] \<and> list_all (\<lambda>c. isupper U c \<or> islower U c) (replace_space s)
          \<longrightarrow> capital_ratio U s + lower_ratio U s = 1)"
proof (cases "replace_space s = []")
  case True
  then show ?thesis by (simp add: capital_ratio_def lower_ratio_def)
next
  case False
  let ?t = "replace_space s"
  let ?u = "length (filter (isupper U) ?t)" and ?l = "length (filter (islower U) ?t)"
  have pos: "(0::rat) < of_nat (length ?t)" using False by simp
  have sum: "capital_ratio U s + lower_ratio U s = of_nat (?u + ?l) / of_nat (length ?t)"
    using False by (simp add: capital_ratio_def lower_ratio_def Let_def add_divide_distrib)
  have "(of_nat (?u + ?l) :: rat) \<le> of_nat (length ?t)"
    using count_upper_lower(1)[OF assms, of ?t] by (simp only: of_nat_le_iff)
  then have le: "capital_ratio U s + lower_ratio U s \<le> 1"
    unfolding sum using pos by (simp add: divide_le_eq)
  have eq: "capital_ratio U s + lower_ratio U s = 1"
    if "list_all (\<lambda>c. isupper U c \<or> islower U c) ?t"
  proof -
    have "?u + ?l = length ?t" using count_upper_lower(2)[OF assms that] .
    then show ?thesis unfolding sum using pos by simp
  qed
  from le eq show ?thesis by blast
qed

text \<open>The value \<open>"Hello World"\<close>: two capitals and eight lower-case letters of ten.\<close>

theorem capital_plus_lower_ratio_witness:
  "(\<forall>c. \<not> (isupper ucd_sample c \<and> islower ucd_sample c))
   \<and> capital_ratio ucd_sample (lit ''Hello World'') + lower_ratio ucd_sample (lit ''Hello World'') \<le> 1
   \<and> replace_space (lit ''Hello World'') \<noteq> []
   \<and> list_all (\<lambda>c. isupper ucd_sample c \<or> islower ucd_sample c) (replace_space (lit ''Hello World''))
   \<and> capital_ratio ucd_sample (lit ''Hello World'') + lower_ratio ucd_sample (lit ''Hello World'') = 1"
proof -
  have h: "\<forall>c. \<not> (isupper ucd_sample c \<and> islower ucd_sample c)"
    by (simp add: ucd_sample_def)
  have r: "replace_space (lit ''Hello World'') \<noteq> []"
    "list_all (\<lambda>c. isupper ucd_sample c \<or> islower ucd_sample c) (replace_space (lit ''Hello World''))"
    by (simp_all add: replace_space_def lit_def ucd_sample_def)
  show ?thesis using h r capital_plus_lower_ratio [OF h, of "lit ''Hello World''"] by simp
qed

text \<open>
  The value of the one character U+4E2D is alphabetic, and it has neither an upper-case
  nor a lower-case character: both ratios are 0, and so is their sum.
\<close>

theorem uncased_alphabetic_counterexample:
  "str_isalpha ucd_sample (replace_space [20013])
   \<and> capital_ratio ucd_sample [20013] + lower_ratio ucd_sample [20013] = 0
   \<and> capital_ratio ucd_sample [20013] + lower_ratio ucd_sample [20013] \<noteq> 1"
  by (simp add: str_isalpha_def replace_space_def capital_ratio_def lower_ratio_def ucd_sample_def)

section \<open>The table of one input column\<close>

lemma filter_key_unique:
  "distinct (map fst d) \<Longrightarrow> map_of d k = Some v \<Longrightarrow> filter (\<lambda>p. fst p = k) d = [(k, v)]"
proof (induction d)
  case Nil then show ?case by simp
next
  case (Cons p d)
  show ?case
  proof (cases "fst p = k")
    case True
    then have "k \<notin> fst ` set d" using Cons.prems(1) by simp
    then have "filter (\<lambda>q. fst q = k) d = []"
      unfolding filter_empty_conv by (metis imageI)
    with True Cons.prems(2) show ?thesis by (cases p) simp
  next
    case False
    with Cons show ?thesis by simp
  qed
qed

lemma getitem_unique:
  "distinct (map fst (data X)) \<Longrightarrow> map_of (data X) k = Some v \<Longrightarrow> getitem X k = Inr (index X, v)"
  by (simp add: getitem_def filter_key_unique)

lemma length_symbol_count_col: "length (symbol_count_col vals s) = length vals"
  by (simp add: symbol_count_col_def)

lemma length_char_count_col: "length (char_count_col vals) = length vals"
  by (simp add: char_count_col_def)

lemma length_symbol_ratio_col: "length (symbol_ratio_col vals s) = length vals"
  by (simp add: symbol_ratio_col_def length_symbol_count_col length_char_count_col)

lemma name_count_neq_char: "feature @ lit ''.symbol_count.'' @ s \<noteq> feature @ lit ''.char_count''"
  by (simp add: lit_def)

lemma name_ratio_neq_char: "feature @ lit ''.symbol_ratio.'' @ s \<noteq> feature @ lit ''.char_count''"
  by (simp add: lit_def)

lemma name_count_neq_ratio: "feature @ lit ''.symbol_count.'' @ s \<noteq> feature @ lit ''.symbol_ratio.'' @ s'"
  by (simp add: lit_def)

lemma symbol_step_distinct: "distinct (map fst d) \<Longrightarrow> distinct (map fst (symbol_step feature vals d s))"
  by (simp add: symbol_step_def AList.distinct_update)

lemma symbol_step_char_count:
  "map_of (symbol_step feature vals d s) (feature @ lit ''.char_count'') = map_of d (feature @ lit ''.char_count'')"
  using name_count_neq_char[of feature s] name_ratio_neq_char[of feature s]
  by (simp add: symbol_step_def AList.update_conv')

text \<open>One round of the loop over the symbols, and the whole loop.\<close>

lemma symbol_loop_step:
  assumes len: "length vals = length (index F)"
    and dist: "distinct (map fst (data F))"
    and cc: "map_of (data F) (feature @ lit ''.char_count'') = Some (char_count_col vals)"
  shows "symbol_loop F (idx, vals) feature (s # symbols) =
         symbol_loop (F\<lparr>data := symbol_step feature vals (data F) s\<rparr>) (idx, vals) feature symbols"
proof -
  let ?cn = "feature @ lit ''.symbol_count.'' @ s"
  let ?rn = "feature @ lit ''.symbol_ratio.'' @ s"
  let ?F1 = "F\<lparr>data := AList.update ?cn (symbol_count_col vals s) (data F)\<rparr>"
  have s1: "setitem F ?cn (map (\<lambda>value. Num (of_int (symbol_in_string_count value s))) vals) = Inr ?F1"
    using len by (simp add: setitem_def symbol_count_col_def)
  have d1: "distinct (map fst (data ?F1))" using dist by (simp add: AList.distinct_update)
  have g1: "getitem ?F1 ?cn = Inr (index F, symbol_count_col vals s)"
    using getitem_unique[OF d1, of ?cn "symbol_count_col vals s"] by (simp add: AList.update_conv')
  have g2: "getitem ?F1 (feature @ lit ''.char_count'') = Inr (index F, char_count_col vals)"
    using getitem_unique[OF d1, of "feature @ lit ''.char_count''" "char_count_col vals"] cc
      name_count_neq_char[of feature s]
    by (simp add: AList.update_conv')
  let ?raw = "series_div (index F, symbol_count_col vals s) (index F, char_count_col vals)"
  let ?F2 = "?F1\<lparr>data := AList.update ?rn ?raw (data ?F1)\<rparr>"
  have lraw: "length ?raw = length (index F)"
    using len by (simp add: series_div_def length_symbol_count_col length_char_count_col)
  have s2: "setitem ?F1 ?rn ?raw = Inr ?F2"
    using lraw by (simp add: setitem_def)
  have d2: "distinct (map fst (data ?F2))" using d1 by (simp add: AList.distinct_update)
  have g3: "getitem ?F2 ?rn = Inr (index F, ?raw)"
    using getitem_unique[OF d2, of ?rn ?raw] by (simp add: AList.update_conv')
  have f3: "fillna_inplace ?F2 ?rn 0 = Inr (F\<lparr>data := symbol_step feature vals (data F) s\<rparr>)"
    unfolding fillna_inplace_def g3
    by (simp add: andthen_def symbol_step_def symbol_ratio_col_def series_div_def AList.update_last)
  show ?thesis
    by (simp only: symbol_loop.simps snd_conv s1 g1 g2 s2 f3 andthen_def sum.case)
qed

lemma symbol_loop_eq:
  assumes "length vals = length (index F)"
    and "distinct (map fst (data F))"
    and "map_of (data F) (feature @ lit ''.char_count'') = Some (char_count_col vals)"
  shows "symbol_loop F (idx, vals) feature symbols =
         Inr (F\<lparr>data := foldl (symbol_step feature vals) (data F) symbols\<rparr>)"
  using assms
proof (induction symbols arbitrary: F)
  case Nil
  then show ?case by simp
next
  case (Cons s symbols)
  let ?F' = "F\<lparr>data := symbol_step feature vals (data F) s\<rparr>"
  have "symbol_loop F (idx, vals) feature (s # symbols) = symbol_loop ?F' (idx, vals) feature symbols"
    using Cons.prems by (rule symbol_loop_step)
  also have "\<dots> = Inr (?F'\<lparr>data := foldl (symbol_step feature vals) (data ?F') symbols\<rparr>)"
    using Cons.prems by (intro Cons.IH) (simp_all add: symbol_step_distinct symbol_step_char_count)
  finally show ?case by simp
qed

lemma generate_text_special_eq:
  assumes "length vals = length idx"
  shows "generate_text_special U symbols (idx, vals) feature =
         Inr \<lparr>index = idx, data = feature_block U symbols feature vals\<rparr>"
proof -
  let ?F = "\<lparr>index = idx, data = fixed_block U feature vals\<rparr>"
  have six: "generate_text_special U symbols (idx, vals) feature = symbol_loop ?F (idx, vals) feature symbols"
    using assms
    by (simp add: generate_text_special_def setitem_def DataFrame_def andthen_def fixed_block_def
        char_count_col_def lit_def)
  have "symbol_loop ?F (idx, vals) feature symbols =
        Inr (?F\<lparr>data := foldl (symbol_step feature vals) (data ?F) symbols\<rparr>)"
    using assms by (intro symbol_loop_eq) (simp_all add: fixed_block_def lit_def)
  with six show ?thesis by (simp add: feature_block_def)
qed

lemma feature_block_snoc:
  "feature_block U (symbols @ [s]) feature vals = symbol_step feature vals (feature_block U symbols feature vals) s"
  by (simp add: feature_block_def)

lemma feature_block_ratio:
  "s \<in> set symbols \<Longrightarrow>
   map_of (feature_block U symbols feature vals) (feature @ lit ''.symbol_ratio.'' @ s) = Some (symbol_ratio_col vals s)"
proof (induction symbols rule: rev_induct)
  case Nil then show ?case by simp
next
  case (snoc x xs)
  show ?case
  proof (cases "s = x")
    case True
    then show ?thesis by (simp add: feature_block_snoc symbol_step_def AList.update_conv')
  next
    case False
    with snoc show ?thesis
      using name_count_neq_ratio[of feature x s]
      by (simp add: feature_block_snoc symbol_step_def AList.update_conv')
  qed
qed

lemma feature_block_count:
  "s \<in> set symbols \<Longrightarrow>
   map_of (feature_block U symbols feature vals) (feature @ lit ''.symbol_count.'' @ s) = Some (symbol_count_col vals s)"
proof (induction symbols rule: rev_induct)
  case Nil then show ?case by simp
next
  case (snoc x xs)
  show ?case
  proof (cases "s = x")
    case True
    then show ?thesis
      using name_count_neq_ratio[of feature x x]
      by (simp add: feature_block_snoc symbol_step_def AList.update_conv')
  next
    case False
    with snoc show ?thesis
      using name_count_neq_ratio[of feature s x]
      by (simp add: feature_block_snoc symbol_step_def AList.update_conv')
  qed
qed

lemma feature_block_distinct: "distinct (map fst (feature_block U symbols feature vals))"
proof (induction symbols rule: rev_induct)
  case Nil then show ?case by (simp add: feature_block_def fixed_block_def lit_def)
next
  case (snoc x xs) then show ?case by (simp add: feature_block_snoc symbol_step_distinct)
qed

lemma feature_block_lengths:
  "list_all (\<lambda>p. length (snd p) = length vals) (feature_block U symbols feature vals)"
proof (induction symbols rule: rev_induct)
  case Nil then show ?case by (simp add: feature_block_def fixed_block_def char_count_col_def)
next
  case (snoc x xs)
  have upd: "\<And>k v d. length v = length vals \<Longrightarrow> list_all (\<lambda>p. length (snd p) = length vals) d
      \<Longrightarrow> list_all (\<lambda>p. length (snd p) = length vals) (AList.update k v d)"
    subgoal for k v d by (induction d) auto
    done
  show ?case using snoc
    by (simp add: feature_block_snoc symbol_step_def upd length_symbol_count_col length_symbol_ratio_col)
qed

lemma symbol_ratio_col_explicit:
  "symbol_ratio_col vals s =
     map (\<lambda>v. Num (if char_count v = 0 then 0
                    else of_int (symbol_in_string_count v s) / of_int (char_count v))) vals"
proof -
  have "fillna_cell 0 (cell_div (Num (of_int (symbol_in_string_count v s))) (Num (of_int (char_count v))))
      = Num (if char_count v = 0 then 0 else of_int (symbol_in_string_count v s) / of_int (char_count v))" for v
    by (simp add: fillna_cell_def symbol_in_string_count_def char_count_def)
  then show ?thesis
    by (simp add: symbol_ratio_col_def symbol_count_col_def char_count_col_def zip_map_map o_def zip_same_conv_map)
qed

lemma generate_text_special_columns:
  assumes len: "length vals = length idx" and s: "s \<in> set symbols"
  shows "\<exists>F. generate_text_special U symbols (idx, vals) feature = Inr F
     \<and> getitem F (feature @ lit ''.char_count'') = Inr (idx, char_count_col vals)
     \<and> getitem F (feature @ lit ''.symbol_count.'' @ s) = Inr (idx, symbol_count_col vals s)
     \<and> getitem F (feature @ lit ''.symbol_ratio.'' @ s) = Inr (idx, symbol_ratio_col vals s)"
proof -
  let ?F = "\<lparr>index = idx, data = feature_block U symbols feature vals\<rparr>"
  have g: "generate_text_special U symbols (idx, vals) feature = Inr ?F"
    using len by (rule generate_text_special_eq)
  have d: "distinct (map fst (data ?F))" by (simp add: feature_block_distinct)
  have cc: "map_of (data ?F) (feature @ lit ''.char_count'') = Some (char_count_col vals)"
  proof (induction symbols rule: rev_induct)
    case Nil show ?case by (simp add: feature_block_def fixed_block_def)
  next
    case (snoc x xs) then show ?case by (simp add: feature_block_snoc symbol_step_char_count)
  qed
  have "getitem ?F (feature @ lit ''.char_count'') = Inr (idx, char_count_col vals)"
    using getitem_unique[OF d cc] by simp
  moreover have "getitem ?F (feature @ lit ''.symbol_count.'' @ s) = Inr (idx, symbol_count_col vals s)"
    using getitem_unique[OF d, of "feature @ lit ''.symbol_count.'' @ s"] feature_block_count[OF s] by simp
  moreover have "getitem ?F (feature @ lit ''.symbol_ratio.'' @ s) = Inr (idx, symbol_ratio_col vals s)"
    using getitem_unique[OF d, of "feature @ lit ''.symbol_ratio.'' @ s"] feature_block_ratio[OF s] by simp
  ultimately show ?thesis using g by simp
qed

text \<open>
  Claim C3. For every input value, \<open>symbol_ratio.<symbol>\<close> is \<open>symbol_count.<symbol>\<close>
  divided by \<open>char_count\<close>, except that the result of a division by zero is replaced
  with 0: for a value with \<open>char_count\<close> = 0 the ratio is 0, and no cell of the column is
  an infinity or NaN. The columns are those of the table that \<open>_generate_text_special\<close>
  returns for a Series as long as its index.
\<close>

theorem symbol_ratio_column:
  assumes "length vals = length idx" and "s \<in> set symbols"
  shows "\<exists>F. generate_text_special U symbols (idx, vals) feature = Inr F
     \<and> getitem F (feature @ lit ''.char_count'') = Inr (idx, map (\<lambda>v. Num (of_int (char_count v))) vals)
     \<and> getitem F (feature @ lit ''.symbol_count.'' @ s)
         = Inr (idx, map (\<lambda>v. Num (of_int (symbol_in_string_count v s))) vals)
     \<and> getitem F (feature @ lit ''.symbol_ratio.'' @ s)
         = Inr (idx, map (\<lambda>v. Num (if char_count v = 0 then 0
                        else of_int (symbol_in_string_count v s) / of_int (char_count v))) vals)"
  using generate_text_special_columns[OF assms, of U feature]
  by (simp add: symbol_ratio_col_explicit char_count_col_def symbol_count_col_def)

text \<open>The example: the ratio of \<open>'!'\<close> is 1/12 in the first row and 0 in the empty row.\<close>

theorem symbol_ratio_column_witness:
  "length [lit ''Hello World!'', [], lit ''abc123''] = length [0::nat, 1, 2] \<and> lit ''!'' \<in> set ex_symbols
   \<and> (\<exists>F. generate_text_special ucd_sample ex_symbols ([0::nat, 1, 2], [lit ''Hello World!'', [], lit ''abc123'']) (lit ''text'') = Inr F
     \<and> getitem F (lit ''text.char_count'') = Inr ([0, 1, 2], [Num 12, Num 0, Num 6])
     \<and> getitem F (lit ''text.symbol_count.!'') = Inr ([0, 1, 2], [Num 1, Num 0, Num 0])
     \<and> getitem F (lit ''text.symbol_ratio.!'') = Inr ([0, 1, 2], [Num (1 / 12), Num 0, Num 0]))"
proof -
  have h: "length [lit ''Hello World!'', [], lit ''abc123''] = length [0::nat, 1, 2]" "lit ''!'' \<in> set ex_symbols"
    by (simp_all add: ex_symbols_def)
  have n: "lit ''text'' @ lit ''.char_count'' = lit ''text.char_count''"
    "lit ''text'' @ lit ''.symbol_count.'' @ lit ''!'' = lit ''text.symbol_count.!''"
    "lit ''text'' @ lit ''.symbol_ratio.'' @ lit ''!'' = lit ''text.symbol_ratio.!''"
    by (simp_all add: lit_def)
  have v: "char_count (lit ''Hello World!'') = 12" "char_count [] = 0" "char_count (lit ''abc123'') = 6"
    "symbol_in_string_count (lit ''Hello World!'') (lit ''!'') = 1"
    "symbol_in_string_count [] (lit ''!'') = 0"
    "symbol_in_string_count (lit ''abc123'') (lit ''!'') = 0"
    by (simp_all add: char_count_def symbol_in_string_count_def lit_def)
  show ?thesis
    using h symbol_ratio_column [OF h, of ucd_sample "lit ''text''"] unfolding n by (simp add: v)
qed

text \<open>
  Claim C10. Symbol counting compares each single character of the value with the whole
  symbol, so for a symbol whose length is not exactly 1 and every value the count is 0,
  and the columns \<open>symbol_count.<symbol>\<close> and \<open>symbol_ratio.<symbol>\<close> are 0 in every
  row: only a symbol of one character can have a count other than 0.
\<close>

theorem long_symbol_never_counted:
  assumes "length s \<noteq> 1"
  shows "symbol_in_string_count v s = 0
     \<and> (length vals = length idx \<and> s \<in> set symbols \<longrightarrow>
         (\<exists>F. generate_text_special U symbols (idx, vals) feature = Inr F
           \<and> getitem F (feature @ lit ''.symbol_count.'' @ s) = Inr (idx, map (\<lambda>v. Num 0) vals)
           \<and> getitem F (feature @ lit ''.symbol_ratio.'' @ s) = Inr (idx, map (\<lambda>v. Num 0) vals)))"
proof -
  have z: "symbol_in_string_count w s = 0" for w
  proof -
    have "filter (\<lambda>c. [c] = s) w = []"
      using assms by (auto simp: filter_empty_conv)
    then show ?thesis by (simp add: symbol_in_string_count_def)
  qed
  show ?thesis
  proof (intro conjI impI)
    show "symbol_in_string_count v s = 0" by (rule z)
    assume a: "length vals = length idx \<and> s \<in> set symbols"
    then have "length vals = length idx" "s \<in> set symbols" by simp_all
    from generate_text_special_columns[OF this, of U feature]
    show "\<exists>F. generate_text_special U symbols (idx, vals) feature = Inr F
           \<and> getitem F (feature @ lit ''.symbol_count.'' @ s) = Inr (idx, map (\<lambda>v. Num 0) vals)
           \<and> getitem F (feature @ lit ''.symbol_ratio.'' @ s) = Inr (idx, map (\<lambda>v. Num 0) vals)"
      by (auto simp: symbol_ratio_col_explicit symbol_count_col_def z)
  qed
qed

text \<open>The symbol \<open>'lo'\<close> occurs in \<open>"Hello World!"\<close> as a substring and is not counted.\<close>

theorem long_symbol_never_counted_witness:
  "length (lit ''lo'') \<noteq> 1 \<and> symbol_in_string_count (lit ''Hello World!'') (lit ''lo'') = 0
   \<and> length [lit ''Hello World!''] = length [0::nat] \<and> lit ''lo'' \<in> set [lit ''lo'']
   \<and> (\<exists>F. generate_text_special ucd_sample [lit ''lo''] ([0::nat], [lit ''Hello World!'']) (lit ''text'') = Inr F
           \<and> getitem F (lit ''text.symbol_count.lo'') = Inr ([0], [Num 0])
           \<and> getitem F (lit ''text.symbol_ratio.lo'') = Inr ([0], [Num 0]))"
proof -
  have h: "length (lit ''lo'') \<noteq> 1" by (simp add: lit_def)
  have n: "lit ''text'' @ lit ''.symbol_count.'' @ lit ''lo'' = lit ''text.symbol_count.lo''"
    "lit ''text'' @ lit ''.symbol_ratio.'' @ lit ''lo'' = lit ''text.symbol_ratio.lo''"
    by (simp_all add: lit_def)
  show ?thesis
    using h long_symbol_never_counted [OF h, of "lit ''Hello World!''" "[lit ''Hello World!'']" "[0::nat]" "[lit ''lo'']" ucd_sample "lit ''text''"]
    unfolding n by simp
qed

section \<open>The names of the output columns\<close>

lemma statistic_names_snoc:
  "statistic_names (symbols @ [s]) = statistic_names symbols @ [lit ''symbol_count.'' @ s, lit ''symbol_ratio.'' @ s]"
  by (simp add: statistic_names_def)

lemma feature_block_keys:
  "distinct symbols \<Longrightarrow>
   map fst (feature_block U symbols feature vals) = map (\<lambda>st. feature @ lit ''.'' @ st) (statistic_names symbols)"
proof (induction symbols rule: rev_induct)
  case Nil
  then show ?case by (simp add: feature_block_def fixed_block_def statistic_names_def lit_def)
next
  case (snoc x xs)
  let ?D = "feature_block U xs feature vals"
  let ?cn = "feature @ lit ''.symbol_count.'' @ x"
  let ?rn = "feature @ lit ''.symbol_ratio.'' @ x"
  have keys: "map fst ?D = map (\<lambda>st. feature @ lit ''.'' @ st) (statistic_names xs)"
    using snoc by simp
  have x: "x \<notin> set xs" using snoc.prems by simp
  have cn: "?cn \<notin> set (map fst ?D)"
    unfolding keys using x by (auto simp: statistic_names_def lit_def)
  have rn: "?rn \<notin> set (map fst ?D)"
    unfolding keys using x by (auto simp: statistic_names_def lit_def)
  have "map fst (symbol_step feature vals ?D x) = map fst ?D @ [?cn, ?rn]"
    using cn rn name_count_neq_ratio[of feature x x]
    by (simp add: symbol_step_def AList.update_keys)
  then show ?case
    by (simp add: feature_block_snoc keys statistic_names_snoc lit_def)
qed

lemma length_statistic_names: "length (statistic_names symbols) = 6 + 2 * length symbols"
  by (induction symbols rule: rev_induct) (simp_all add: statistic_names_snoc, simp add: statistic_names_def)

lemma length_expected_columns: "length (expected_columns features symbols) = length features * (6 + 2 * length symbols)"
  by (induction features) (simp_all add: expected_columns_def length_statistic_names)

section \<open>The transform step\<close>

lemma filter_restricted:
  "distinct ls \<Longrightarrow> f \<in> set ls \<Longrightarrow>
   filter (\<lambda>p. fst p = f) (concat (map (\<lambda>l. filter (\<lambda>p. fst p = l) d) ls)) = filter (\<lambda>p. fst p = f) d"
proof (induction ls)
  case Nil then show ?case by simp
next
  case (Cons l ls)
  have other: "f \<notin> set ks \<Longrightarrow> filter (\<lambda>p. fst p = f) (concat (map (\<lambda>l. filter (\<lambda>p. fst p = l) d) ks)) = []" for ks
    by (induction ks) (auto simp: filter_empty_conv)
  show ?case
  proof (cases "f = l")
    case True
    then have "f \<notin> set ls" using Cons.prems by simp
    then have "filter (\<lambda>p. fst p = f) (concat (map (\<lambda>l. filter (\<lambda>p. fst p = l) d) ls)) = []"
      by (rule other)
    with True show ?thesis by simp
  next
    case False
    then have "filter (\<lambda>p. fst p = f) (filter (\<lambda>p. fst p = l) d) = []"
      by (auto simp: filter_empty_conv)
    with False Cons show ?thesis by simp
  qed
qed

lemma unique_label_in_columns: "unique_label X l \<Longrightarrow> l \<in> set (columns X)"
proof -
  assume "unique_label X l"
  then have "filter (\<lambda>p. fst p = l) (data X) \<noteq> []" by (auto simp: unique_label_def)
  then obtain p where "p \<in> set (data X)" "fst p = l" by (auto simp: filter_empty_conv)
  then show ?thesis by (auto simp: columns_def)
qed

lemma getitem_list_eq:
  "\<forall>f \<in> set fs. unique_label X f \<Longrightarrow>
   getitem_list X (Some fs) = Inr (X\<lparr>data := concat (map (\<lambda>l. filter (\<lambda>p. fst p = l) (data X)) fs)\<rparr>)"
  by (simp add: getitem_list_def list_all_iff unique_label_in_columns)

lemma getitem_column:
  "unique_label X f \<Longrightarrow> filter (\<lambda>p. fst p = f) (data Y) = filter (\<lambda>p. fst p = f) (data X) \<Longrightarrow>
   getitem Y f = Inr (index Y, column X f)"
  by (auto simp: getitem_def unique_label_def column_def length_Suc_conv split: list.splits)

lemma length_column:
  "wf_frame X \<Longrightarrow> unique_label X f \<Longrightarrow> length (column X f) = length (index X)"
proof -
  assume wf: "wf_frame X" and u: "unique_label X f"
  then obtain p where p: "filter (\<lambda>p. fst p = f) (data X) = [p]"
    by (auto simp: unique_label_def length_Suc_conv)
  then have "p \<in> set (filter (\<lambda>p. fst p = f) (data X))" by simp
  then have "p \<in> set (data X)" by simp
  with wf have "length (snd p) = length (index X)" by (simp add: wf_frame_def list_all_iff)
  with p show ?thesis by (simp add: column_def)
qed

lemma for_each_eq:
  "\<forall>x \<in> set xs. f x = Inr (g x) \<Longrightarrow> for_each f xs = Inr (map g xs)"
  by (induction xs) (simp_all add: andthen_def)

lemma generate_features_eq:
  assumes fi: "features_in self = Some fs"
    and idx: "index Y = index X"
    and cols: "\<forall>f \<in> set fs. unique_label X f \<and> filter (\<lambda>p. fst p = f) (data Y) = filter (\<lambda>p. fst p = f) (data X)"
    and wf: "wf_frame X"
  shows "generate_features_text_special U symbols self Y =
         Inr \<lparr>index = index X, data = transformed_data U symbols fs X\<rparr>"
proof (cases fs)
  case Nil
  then show ?thesis using fi idx
    by (simp add: generate_features_text_special_def DataFrame_def transformed_data_def)
next
  case (Cons f0 fs0)
  let ?body = "\<lambda>nlp_feature. andthen (getitem Y nlp_feature) (\<lambda>S. generate_text_special U symbols S nlp_feature)"
  let ?g = "\<lambda>f. \<lparr>index = index X, data = feature_block U symbols f (column X f)\<rparr>"
  have "\<forall>f \<in> set fs. ?body f = Inr (?g f)"
  proof
    fix f assume f: "f \<in> set fs"
    with cols have u: "unique_label X f"
      and e: "filter (\<lambda>p. fst p = f) (data Y) = filter (\<lambda>p. fst p = f) (data X)" by auto
    have "getitem Y f = Inr (index X, column X f)"
      using getitem_column[OF u e] idx by simp
    moreover have "generate_text_special U symbols (index X, column X f) f = Inr (?g f)"
      using length_column[OF wf u] by (rule generate_text_special_eq)
    ultimately show "?body f = Inr (?g f)" by (simp add: andthen_def)
  qed
  then have "for_each ?body fs = Inr (map ?g fs)" by (rule for_each_eq)
  then show ?thesis using fi Cons
    by (simp add: generate_features_text_special_def andthen_def concat_axis1_def transformed_data_def o_def)
qed

lemma do_transform_eq:
  assumes k: "klass self = TextSpecialFeatureGenerator symbols"
    and fi: "features_in self = Some fs" and d: "distinct fs"
    and u: "\<forall>f \<in> set fs. unique_label X f" and wf: "wf_frame X"
  shows "andthen (getitem_list X (features_in self)) (do_transform U self)
         = Inr \<lparr>index = index X, data = transformed_data U symbols fs X\<rparr>"
proof -
  let ?Y = "X\<lparr>data := concat (map (\<lambda>l. filter (\<lambda>p. fst p = l) (data X)) fs)\<rparr>"
  have g: "getitem_list X (features_in self) = Inr ?Y" using fi getitem_list_eq[OF u] by simp
  have "generate_features_text_special U symbols self ?Y =
         Inr \<lparr>index = index X, data = transformed_data U symbols fs X\<rparr>"
    using fi _ _ wf
  proof (rule generate_features_eq)
    show "index ?Y = index X" by simp
    show "\<forall>f \<in> set fs. unique_label X f \<and> filter (\<lambda>p. fst p = f) (data ?Y) = filter (\<lambda>p. fst p = f) (data X)"
      using u d by (simp add: filter_restricted)
  qed
  then show ?thesis using k g
    by (simp add: andthen_def do_transform_def)
qed

lemma transform_eq:
  assumes "is_fit self" and k: "klass self = TextSpecialFeatureGenerator symbols"
    and fi: "features_in self = Some fs" and d: "distinct fs"
    and u: "\<forall>f \<in> set fs. unique_label X f" and wf: "wf_frame X"
  shows "transform U self X = (Inr \<lparr>index = index X, data = transformed_data U symbols fs X\<rparr>, self)"
  using assms(1) do_transform_eq[OF k fi d u wf] by (simp add: transform_def)

lemma transformed_data_columns:
  "distinct symbols \<Longrightarrow> map fst (transformed_data U symbols fs X) = expected_columns fs symbols"
  by (simp add: transformed_data_def expected_columns_def map_concat o_def feature_block_keys)

lemma transformed_data_wf:
  "wf_frame X \<Longrightarrow> \<forall>f \<in> set fs. unique_label X f \<Longrightarrow>
   list_all (\<lambda>p. length (snd p) = length (index X)) (transformed_data U symbols fs X)"
proof -
  assume wf: "wf_frame X" and u: "\<forall>f \<in> set fs. unique_label X f"
  have "list_all (\<lambda>p. length (snd p) = length (index X)) (feature_block U symbols f (column X f))"
    if "f \<in> set fs" for f
    using feature_block_lengths[of "column X f" U symbols f] length_column[OF wf] u that by simp
  then show ?thesis
    by (auto simp: transformed_data_def list_all_iff)
qed

lemma do_transform_cong:
  "klass a = klass b \<Longrightarrow> features_in a = features_in b \<Longrightarrow> do_transform U a X = do_transform U b X"
  by (simp add: do_transform_def generate_features_text_special_def split: klass.splits)

lemma fit_transform_eq:
  assumes nf: "\<not> is_fit self" and k: "klass self = TextSpecialFeatureGenerator symbols"
    and fi: "features_in self = Some fs" and d: "distinct fs"
    and u: "\<forall>f \<in> set fs. unique_label X f" and wf: "wf_frame X"
  shows "fit_transform U T self X =
         (Inr \<lparr>index = index X, data = transformed_data U symbols fs X\<rparr>,
          self\<lparr>features_out := Some (map fst (transformed_data U symbols fs X)),
               feature_types_metadata := Some \<lparr>feature_types_raw = T \<lparr>index = index X, data = transformed_data U symbols fs X\<rparr>,
                  feature_types_special = [S_TEXT_SPECIAL \<mapsto> map fst (transformed_data U symbols fs X)]\<rparr>,
               is_fit := True\<rparr>)"
proof -
  let ?out = "\<lparr>index = index X, data = transformed_data U symbols fs X\<rparr>"
  have g: "getitem_list X (features_in self) = Inr (X\<lparr>data := concat (map (\<lambda>l. filter (\<lambda>p. fst p = l) (data X)) fs)\<rparr>)"
    using fi getitem_list_eq[OF u] by simp
  have "andthen (getitem_list X (features_in self)) (do_transform U self) = Inr ?out"
    using k fi d u wf by (rule do_transform_eq)
  then have "andthen (getitem_list X (features_in self)) (do_fit_transform U self)
      = Inr (?out, [S_TEXT_SPECIAL \<mapsto> columns ?out])"
    using k by (simp add: g andthen_def do_fit_transform_def)
  then show ?thesis using nf fi
    by (simp add: fit_transform_def columns_def)
qed

text \<open>The example table and the generators of the examples.\<close>

lemma ex_table_facts:
  "wf_frame ex_table" "unique_label ex_table (lit ''text'')"
  "column ex_table (lit ''text'') = [lit ''Hello World!'', [], lit ''abc123'']"
  "index ex_table = [0, 1, 2]"
  by (simp_all add: ex_table_def wf_frame_def unique_label_def column_def)

lemma ex_gen_facts:
  "\<not> is_fit (ex_gen symbols)" "klass (ex_gen symbols) = TextSpecialFeatureGenerator symbols"
  "features_in (ex_gen symbols) = Some [lit ''text'']"
  by (simp_all add: ex_gen_def init_def)

lemma ex_symbols_length: "length ex_symbols = 2"
  by (simp add: ex_symbols_def)

lemma ex_fitted_eq:
  "ex_fitted symbols =
    \<lparr>klass = TextSpecialFeatureGenerator symbols, is_fit = True,
     feature_types_metadata = Some \<lparr>feature_types_raw = (),
        feature_types_special = [S_TEXT_SPECIAL \<mapsto> map fst (transformed_data ucd_sample symbols [lit ''text''] ex_table)]\<rparr>,
     features_in = Some [lit ''text''],
     features_out = Some (map fst (transformed_data ucd_sample symbols [lit ''text''] ex_table))\<rparr>"
proof -
  have "fit_transform ucd_sample (\<lambda>X_out. ()) (ex_gen symbols) ex_table =
      (Inr \<lparr>index = index ex_table, data = transformed_data ucd_sample symbols [lit ''text''] ex_table\<rparr>,
       (ex_gen symbols)\<lparr>features_out := Some (map fst (transformed_data ucd_sample symbols [lit ''text''] ex_table)),
               feature_types_metadata := Some \<lparr>feature_types_raw = (),
                  feature_types_special = [S_TEXT_SPECIAL \<mapsto> map fst (transformed_data ucd_sample symbols [lit ''text''] ex_table)]\<rparr>,
               is_fit := True\<rparr>)"
    by (rule fit_transform_eq) (simp_all add: ex_gen_def init_def ex_table_facts)
  then show ?thesis by (simp add: ex_fitted_def ex_gen_def init_def)
qed

lemma ex_fitted_facts:
  "is_fit (ex_fitted symbols)" "klass (ex_fitted symbols) = TextSpecialFeatureGenerator symbols"
  "features_in (ex_fitted symbols) = Some [lit ''text'']"
  by (simp_all add: ex_fitted_eq)

lemma ex_fit_transform:
  "fit_transform ucd_sample (\<lambda>X_out. ()) (ex_gen symbols) ex_table =
     (Inr \<lparr>index = [0, 1, 2], data = transformed_data ucd_sample symbols [lit ''text''] ex_table\<rparr>,
      ex_fitted symbols)"
proof -
  have "fst (fit_transform ucd_sample (\<lambda>X_out. ()) (ex_gen symbols) ex_table) =
      Inr \<lparr>index = index ex_table, data = transformed_data ucd_sample symbols [lit ''text''] ex_table\<rparr>"
    by (subst fit_transform_eq [where fs = "[lit ''text'']" and symbols = symbols])
       (simp_all add: ex_gen_facts ex_table_facts)
  then show ?thesis by (simp add: ex_fitted_def ex_table_facts prod_eq_iff)
qed

lemma ex_fitted_empty_eq:
  "ex_fitted_empty =
    \<lparr>klass = TextSpecialFeatureGenerator ex_symbols, is_fit = True,
     feature_types_metadata = Some \<lparr>feature_types_raw = (),
        feature_types_special = [S_TEXT_SPECIAL \<mapsto> []]\<rparr>,
     features_in = Some [], features_out = Some []\<rparr>"
proof -
  have "fit_transform ucd_sample (\<lambda>X_out. ()) (init (TextSpecialFeatureGenerator ex_symbols) (Some [])) ex_table =
      (Inr \<lparr>index = index ex_table, data = transformed_data ucd_sample ex_symbols [] ex_table\<rparr>,
       (init (TextSpecialFeatureGenerator ex_symbols) (Some []))\<lparr>features_out := Some (map fst (transformed_data ucd_sample ex_symbols [] ex_table)),
               feature_types_metadata := Some \<lparr>feature_types_raw = (),
                  feature_types_special = [S_TEXT_SPECIAL \<mapsto> map fst (transformed_data ucd_sample ex_symbols [] ex_table)]\<rparr>,
               is_fit := True\<rparr>)"
    by (rule fit_transform_eq) (simp_all add: init_def ex_table_facts)
  then show ?thesis by (simp add: ex_fitted_empty_def init_def transformed_data_def)
qed

lemma ex_do_transform:
  "do_transform ucd_sample (ex_gen ex_symbols) ex_table =
     Inr \<lparr>index = [0, 1, 2], data = transformed_data ucd_sample ex_symbols [lit ''text''] ex_table\<rparr>"
proof -
  have "generate_features_text_special ucd_sample ex_symbols (ex_gen ex_symbols) ex_table =
      Inr \<lparr>index = index ex_table, data = transformed_data ucd_sample ex_symbols [lit ''text''] ex_table\<rparr>"
    by (rule generate_features_eq) (simp_all add: ex_gen_facts ex_table_facts)
  then show ?thesis by (simp add: do_transform_def ex_gen_facts ex_table_facts)
qed

lemma ex_columns:
  "map fst (transformed_data ucd_sample ex_symbols [lit ''text''] ex_table) =
     map lit [''text.char_count'', ''text.word_count'', ''text.capital_ratio'',
                 ''text.lower_ratio'', ''text.digit_ratio'', ''text.special_ratio'',
                 ''text.symbol_count.!'', ''text.symbol_ratio.!'', ''text.symbol_count.a'', ''text.symbol_ratio.a'']"
proof -
  have "distinct ex_symbols" by (simp add: ex_symbols_def lit_def)
  then have "map fst (transformed_data ucd_sample ex_symbols [lit ''text''] ex_table) = expected_columns [lit ''text''] ex_symbols"
    by (rule transformed_data_columns)
  then show ?thesis by (simp add: expected_columns_def statistic_names_def ex_symbols_def lit_def)
qed

lemma update_fresh:
  "k \<notin> set (map fst d) \<Longrightarrow> AList.update k v d = d @ [(k, v)]"
  by (induction d) auto

lemma expected_block_snoc:
  "expected_block U (symbols @ [s]) f vals =
     expected_block U symbols f vals
     @ [(f @ lit ''.symbol_count.'' @ s, symbol_count_col vals s),
        (f @ lit ''.symbol_ratio.'' @ s, symbol_ratio_col vals s)]"
  by (simp add: expected_block_def symbol_count_col_def symbol_ratio_col_explicit)

lemma feature_block_expected:
  "distinct symbols \<Longrightarrow> feature_block U symbols f vals = expected_block U symbols f vals"
proof (induction symbols rule: rev_induct)
  case Nil
  show ?case by (simp add: feature_block_def fixed_block_def expected_block_def char_count_col_def)
next
  case (snoc x xs)
  let ?D = "feature_block U xs f vals"
  let ?cn = "f @ lit ''.symbol_count.'' @ x"
  let ?rn = "f @ lit ''.symbol_ratio.'' @ x"
  have D: "?D = expected_block U xs f vals" using snoc by simp
  have keys: "map fst ?D = map (\<lambda>st. f @ lit ''.'' @ st) (statistic_names xs)"
    using snoc.prems by (simp add: feature_block_keys)
  have x: "x \<notin> set xs" using snoc.prems by simp
  have cn: "?cn \<notin> set (map fst ?D)"
    unfolding keys using x by (auto simp: statistic_names_def lit_def)
  have rn: "?rn \<notin> set (map fst (?D @ [(?cn, symbol_count_col vals x)]))"
    using name_count_neq_ratio[of f x x] x unfolding map_append keys
    by (auto simp: statistic_names_def lit_def)
  have "symbol_step f vals ?D x = ?D @ [(?cn, symbol_count_col vals x), (?rn, symbol_ratio_col vals x)]"
    unfolding symbol_step_def update_fresh[OF cn] update_fresh[OF rn] by simp
  then show ?case by (simp add: feature_block_snoc D expected_block_snoc)
qed

lemma transformed_data_expected:
  "distinct symbols \<Longrightarrow>
   \<lparr>index = index X, data = transformed_data U symbols fs X\<rparr> = expected_table U fs symbols X"
  by (simp add: transformed_data_def expected_table_def feature_block_expected)

lemma ex_expected_rows:
  "getitem (expected_table ucd_sample [lit ''text''] ex_symbols ex_table) (lit ''text.char_count'')
     = Inr ([0, 1, 2], [Num 12, Num 0, Num 6])"
  "getitem (expected_table ucd_sample [lit ''text''] ex_symbols ex_table) (lit ''text.symbol_count.a'')
     = Inr ([0, 1, 2], [Num 0, Num 0, Num 1])"
  by (simp_all add: expected_table_def expected_block_def ex_table_def column_def ex_symbols_def
      getitem_def char_count_def symbol_in_string_count_def lit_def)

text \<open>
  Claim C1, as amended. For every fitted \<open>TextSpecialFeatureGenerator\<close> with N configured
  input columns and S configured symbols, where the input columns are pairwise distinct
  and the symbols are pairwise distinct, and every input table in which each of those
  columns is the label of exactly one column, the transform step returns a table with
  exactly N*(6+2S) columns, named \<open><column>.<statistic>\<close>, in the order of the input
  columns and within one input column in the order \<open>char_count\<close>, \<open>word_count\<close>,
  \<open>capital_ratio\<close>, \<open>lower_ratio\<close>, \<open>digit_ratio\<close>, \<open>special_ratio\<close>, then for each symbol
  in configured order \<open>symbol_count.<symbol>\<close>, \<open>symbol_ratio.<symbol>\<close>; the table has
  the row index of the input, and no row is dropped or reordered: every column holds in
  each row the statistic of the input value of that row.
\<close>

theorem transform_output_columns:
  assumes "is_fit self" and "klass self = TextSpecialFeatureGenerator symbols"
    and "features_in self = Some fs" and "distinct fs" and "distinct symbols"
    and "\<forall>f \<in> set fs. unique_label X f" and "wf_frame X"
  shows "transform U self X = (Inr (expected_table U fs symbols X), self)
           \<and> columns (expected_table U fs symbols X) = expected_columns fs symbols
           \<and> length (columns (expected_table U fs symbols X)) = length fs * (6 + 2 * length symbols)
           \<and> index (expected_table U fs symbols X) = index X
           \<and> wf_frame (expected_table U fs symbols X)"
proof -
  let ?out = "\<lparr>index = index X, data = transformed_data U symbols fs X\<rparr>"
  have e: "?out = expected_table U fs symbols X"
    using assms(5) by (rule transformed_data_expected)
  have t: "transform U self X = (Inr ?out, self)"
    using assms(1,2,3,4,6,7) by (rule transform_eq)
  have c: "columns ?out = expected_columns fs symbols"
    using assms(5) by (simp add: columns_def transformed_data_columns)
  have w: "wf_frame ?out"
    using transformed_data_wf[OF assms(7,6)] by (simp add: wf_frame_def)
  have i: "index ?out = index X" by simp
  from t c w i show ?thesis unfolding e by (simp add: length_expected_columns)
qed

text \<open>
  The example: one input column and two symbols give ten columns on the three rows, and
  the counts stand in the order of the rows.
\<close>

theorem transform_output_columns_witness:
  "is_fit (ex_fitted ex_symbols) \<and> klass (ex_fitted ex_symbols) = TextSpecialFeatureGenerator ex_symbols
   \<and> features_in (ex_fitted ex_symbols) = Some [lit ''text''] \<and> distinct [lit ''text''] \<and> distinct ex_symbols
   \<and> unique_label ex_table (lit ''text'') \<and> wf_frame ex_table
   \<and> transform ucd_sample (ex_fitted ex_symbols) ex_table
       = (Inr (expected_table ucd_sample [lit ''text''] ex_symbols ex_table), ex_fitted ex_symbols)
   \<and> columns (expected_table ucd_sample [lit ''text''] ex_symbols ex_table)
       = map lit [''text.char_count'', ''text.word_count'', ''text.capital_ratio'',
                 ''text.lower_ratio'', ''text.digit_ratio'', ''text.special_ratio'',
                 ''text.symbol_count.!'', ''text.symbol_ratio.!'', ''text.symbol_count.a'', ''text.symbol_ratio.a'']
   \<and> length (columns (expected_table ucd_sample [lit ''text''] ex_symbols ex_table)) = 10
   \<and> index (expected_table ucd_sample [lit ''text''] ex_symbols ex_table) = [0, 1, 2]
   \<and> wf_frame (expected_table ucd_sample [lit ''text''] ex_symbols ex_table)
   \<and> getitem (expected_table ucd_sample [lit ''text''] ex_symbols ex_table) (lit ''text.char_count'')
       = Inr ([0, 1, 2], [Num 12, Num 0, Num 6])
   \<and> getitem (expected_table ucd_sample [lit ''text''] ex_symbols ex_table) (lit ''text.symbol_count.a'')
       = Inr ([0, 1, 2], [Num 0, Num 0, Num 1])"
proof -
  have h: "is_fit (ex_fitted ex_symbols)" "klass (ex_fitted ex_symbols) = TextSpecialFeatureGenerator ex_symbols"
    "features_in (ex_fitted ex_symbols) = Some [lit ''text'']" "distinct [lit ''text'']" "distinct ex_symbols"
    "\<forall>f \<in> set [lit ''text'']. unique_label ex_table f" "wf_frame ex_table"
    by (simp_all add: ex_fitted_facts ex_table_facts) (simp add: ex_symbols_def lit_def)
  have e: "expected_columns [lit ''text''] ex_symbols = map lit [''text.char_count'', ''text.word_count'', ''text.capital_ratio'',
                 ''text.lower_ratio'', ''text.digit_ratio'', ''text.special_ratio'',
                 ''text.symbol_count.!'', ''text.symbol_ratio.!'', ''text.symbol_count.a'', ''text.symbol_ratio.a'']"
    by (simp add: expected_columns_def statistic_names_def ex_symbols_def lit_def)
  note c = transform_output_columns [OF h, of ucd_sample]
  show ?thesis
    using h c ex_expected_rows unfolding e
    by (simp add: ex_table_facts ex_symbols_length del: distinct.simps)
qed

text \<open>
  A generator whose symbols are \<open>'!'\<close> and \<open>'!'\<close>: the second round of the loop assigns
  to the columns of the first, and the table has eight columns where N*(6+2S) is ten.
\<close>

theorem repeated_symbol_counterexample:
  "map_sum id columns (fst (transform ucd_sample (ex_fitted [lit ''!'', lit ''!'']) ex_table))
     = Inr (map lit [''text.char_count'', ''text.word_count'', ''text.capital_ratio'',
                 ''text.lower_ratio'', ''text.digit_ratio'', ''text.special_ratio'',
                 ''text.symbol_count.!'', ''text.symbol_ratio.!''])
   \<and> map_sum id (\<lambda>X_out. length (columns X_out))
         (fst (transform ucd_sample (ex_fitted [lit ''!'', lit ''!'']) ex_table)) = Inr 8
   \<and> length [lit ''text''] * (6 + 2 * length [lit ''!'', lit ''!'']) = 10"
proof -
  let ?D = "transformed_data ucd_sample [lit ''!'', lit ''!''] [lit ''text''] ex_table"
  have t: "transform ucd_sample (ex_fitted [lit ''!'', lit ''!'']) ex_table =
     (Inr \<lparr>index = index ex_table, data = ?D\<rparr>, ex_fitted [lit ''!'', lit ''!''])"
    by (rule transform_eq) (simp_all add: ex_fitted_facts ex_table_facts)
  have names: "map fst ?D
     = map lit [''text.char_count'', ''text.word_count'', ''text.capital_ratio'',
                 ''text.lower_ratio'', ''text.digit_ratio'', ''text.special_ratio'',
                 ''text.symbol_count.!'', ''text.symbol_ratio.!'']"
    by (simp add: transformed_data_def feature_block_def fixed_block_def symbol_step_def lit_def)
  have "length ?D = length (map fst ?D)" by simp
  also have "\<dots> = 8" unfolding names by simp
  finally have len: "length ?D = 8" .
  show ?thesis using t names len by (simp add: columns_def)
qed

text \<open>
  Claim C8. If the configured input-column list is empty, the transform step returns
  a table with no column on the row index of the input table.
\<close>

theorem empty_features_empty_table:
  assumes "klass self = TextSpecialFeatureGenerator symbols" and "features_in self = Some []"
  shows "do_transform U self X = Inr \<lparr>index = index X, data = []\<rparr>
     \<and> (is_fit self \<longrightarrow> transform U self X = (Inr \<lparr>index = index X, data = []\<rparr>, self))"
  using assms
  by (simp add: transform_def do_transform_def generate_features_text_special_def DataFrame_def
      getitem_list_def andthen_def)

text \<open>The generator fitted with an empty list of input columns, on the example table.\<close>

theorem empty_features_empty_table_witness:
  "klass ex_fitted_empty = TextSpecialFeatureGenerator ex_symbols \<and> features_in ex_fitted_empty = Some []
   \<and> do_transform ucd_sample ex_fitted_empty ex_table = Inr \<lparr>index = [0, 1, 2], data = []\<rparr>
   \<and> is_fit ex_fitted_empty
   \<and> transform ucd_sample ex_fitted_empty ex_table = (Inr \<lparr>index = [0, 1, 2], data = []\<rparr>, ex_fitted_empty)"
proof -
  have h: "klass ex_fitted_empty = TextSpecialFeatureGenerator ex_symbols" "features_in ex_fitted_empty = Some []"
    and f: "is_fit ex_fitted_empty"
    by (simp_all add: ex_fitted_empty_eq)
  show ?thesis
    using h f empty_features_empty_table [OF h, of ucd_sample ex_table] by (simp add: ex_table_facts)
qed

text \<open>
  Claim C7. For every table, the \<open>_fit_transform\<close> of the text generator returns the
  table that its \<open>_transform\<close> returns for that table (and raises what it raises), and
  the mapping returned with it has the single key \<open>S_TEXT_SPECIAL\<close>, which it maps to the
  list of all columns of that table.
\<close>

theorem text_fit_transform_is_transform:
  assumes "klass self = TextSpecialFeatureGenerator symbols"
  shows "(\<forall>e. do_transform U self X = Inl e \<longrightarrow> do_fit_transform U self X = Inl e)
     \<and> (\<forall>X_out. do_transform U self X = Inr X_out \<longrightarrow>
          (\<exists>m. do_fit_transform U self X = Inr (X_out, m)
             \<and> dom m = {S_TEXT_SPECIAL} \<and> m S_TEXT_SPECIAL = Some (columns X_out)))"
  using assms by (simp add: do_fit_transform_def andthen_def)

text \<open>The example: the ten columns are the entry of the one category.\<close>

theorem text_fit_transform_is_transform_witness:
  "klass (ex_gen ex_symbols) = TextSpecialFeatureGenerator ex_symbols
   \<and> do_transform ucd_sample (ex_gen ex_symbols) ex_table
       = Inr \<lparr>index = [0, 1, 2], data = transformed_data ucd_sample ex_symbols [lit ''text''] ex_table\<rparr>
   \<and> (\<exists>m. do_fit_transform ucd_sample (ex_gen ex_symbols) ex_table
            = Inr (\<lparr>index = [0, 1, 2], data = transformed_data ucd_sample ex_symbols [lit ''text''] ex_table\<rparr>, m)
         \<and> dom m = {S_TEXT_SPECIAL}
         \<and> m S_TEXT_SPECIAL = Some (map lit [''text.char_count'', ''text.word_count'', ''text.capital_ratio'',
                 ''text.lower_ratio'', ''text.digit_ratio'', ''text.special_ratio'',
                 ''text.symbol_count.!'', ''text.symbol_ratio.!'', ''text.symbol_count.a'', ''text.symbol_ratio.a'']))"
proof -
  have h: "klass (ex_gen ex_symbols) = TextSpecialFeatureGenerator ex_symbols" by (rule ex_gen_facts)
  show ?thesis
    using h ex_do_transform text_fit_transform_is_transform [OF h, of ucd_sample ex_table]
    by (simp add: columns_def ex_columns)
qed

text \<open>
  Claim C6. For every fitted generator, \<open>transform\<close> leaves the generator as it was, so
  a second call with the same table returns what the first returned; and what it
  returns depends on the table, the class with its symbols, and \<open>features_in\<close> only.
\<close>

theorem transform_idempotent_pure:
  assumes "is_fit self"
  shows "snd (transform U self X) = self
     \<and> transform U (snd (transform U self X)) X = transform U self X
     \<and> (is_fit other \<and> klass other = klass self \<and> features_in other = features_in self
          \<longrightarrow> fst (transform U other X) = fst (transform U self X))"
proof (intro conjI impI)
  show s: "snd (transform U self X) = self" by (simp add: transform_def)
  show "transform U (snd (transform U self X)) X = transform U self X" by (simp only: s)
  assume o: "is_fit other \<and> klass other = klass self \<and> features_in other = features_in self"
  then have "andthen (getitem_list X (features_in self)) (do_transform U other)
      = andthen (getitem_list X (features_in self)) (do_transform U self)"
    by (cases "getitem_list X (features_in self)")
       (simp_all add: andthen_def do_transform_cong [of other self])
  with o assms show "fst (transform U other X) = fst (transform U self X)"
    by (simp add: transform_def)
qed

text \<open>The fitted generator of the example, and a copy that has forgotten \<open>features_out\<close>.\<close>

theorem transform_idempotent_pure_witness:
  "is_fit (ex_fitted ex_symbols)
   \<and> snd (transform ucd_sample (ex_fitted ex_symbols) ex_table) = ex_fitted ex_symbols
   \<and> transform ucd_sample (snd (transform ucd_sample (ex_fitted ex_symbols) ex_table)) ex_table
       = transform ucd_sample (ex_fitted ex_symbols) ex_table
   \<and> is_fit ((ex_fitted ex_symbols)\<lparr>features_out := None\<rparr>)
   \<and> klass ((ex_fitted ex_symbols)\<lparr>features_out := None\<rparr>) = klass (ex_fitted ex_symbols)
   \<and> features_in ((ex_fitted ex_symbols)\<lparr>features_out := None\<rparr>) = features_in (ex_fitted ex_symbols)
   \<and> fst (transform ucd_sample ((ex_fitted ex_symbols)\<lparr>features_out := None\<rparr>) ex_table)
       = fst (transform ucd_sample (ex_fitted ex_symbols) ex_table)"
proof -
  have h: "is_fit (ex_fitted ex_symbols)" by (rule ex_fitted_facts)
  show ?thesis
    using h transform_idempotent_pure [OF h, of ucd_sample ex_table "(ex_fitted ex_symbols)\<lparr>features_out := None\<rparr>"]
    by simp
qed

section \<open>The errors of the entry points\<close>

lemma andthen_no_assertion:
  "\<not> raises_assertion m \<Longrightarrow> (\<And>x. \<not> raises_assertion (f x)) \<Longrightarrow> \<not> raises_assertion (andthen m f)"
  by (cases m) (simp_all add: andthen_def raises_assertion_def)

lemma Inr_no_assertion: "\<not> raises_assertion (Inr x)"
  by (simp add: raises_assertion_def)

lemma setitem_no_assertion: "\<not> raises_assertion (setitem X l vs)"
  by (simp add: setitem_def raises_assertion_def)

lemma getitem_no_assertion: "\<not> raises_assertion (getitem X l)"
  by (simp add: getitem_def raises_assertion_def split: list.splits)

lemma getitem_list_no_assertion: "\<not> raises_assertion (getitem_list X ls)"
  by (simp add: getitem_list_def raises_assertion_def split: option.splits)

lemma fillna_no_assertion: "\<not> raises_assertion (fillna_inplace X l v)"
  unfolding fillna_inplace_def
  by (intro andthen_no_assertion getitem_no_assertion Inr_no_assertion)

lemma concat_axis1_no_assertion: "\<not> raises_assertion (concat_axis1 Xs)"
  by (simp add: concat_axis1_def raises_assertion_def split: list.splits)

lemma for_each_no_assertion:
  "(\<And>x. \<not> raises_assertion (f x)) \<Longrightarrow> \<not> raises_assertion (for_each f xs)"
proof (induction xs)
  case Nil then show ?case by (simp add: raises_assertion_def)
next
  case (Cons x xs)
  show ?case unfolding for_each.simps
    by (intro andthen_no_assertion Cons Inr_no_assertion)
qed

lemma symbol_loop_no_assertion: "\<not> raises_assertion (symbol_loop F X feature symbols)"
proof (induction symbols arbitrary: F)
  case Nil then show ?case by (simp add: raises_assertion_def)
next
  case (Cons s symbols)
  show ?case unfolding symbol_loop.simps
    by (intro andthen_no_assertion setitem_no_assertion getitem_no_assertion fillna_no_assertion Cons)
qed

lemma generate_text_special_no_assertion:
  "\<not> raises_assertion (generate_text_special U symbols X feature)"
  unfolding generate_text_special_def
  by (intro andthen_no_assertion setitem_no_assertion symbol_loop_no_assertion)

lemma generate_features_no_assertion:
  "\<not> raises_assertion (generate_features_text_special U symbols self X)"
proof (cases "features_in self")
  case None
  then show ?thesis by (simp add: generate_features_text_special_def raises_assertion_def)
next
  case (Some fs)
  show ?thesis
  proof (cases fs)
    case Nil
    with Some show ?thesis by (simp add: generate_features_text_special_def raises_assertion_def)
  next
    case (Cons f fs')
    have "\<not> raises_assertion (andthen (for_each (\<lambda>nlp_feature.
                      andthen (getitem X nlp_feature)
                        (\<lambda>S. generate_text_special U symbols S nlp_feature)) (f # fs')) concat_axis1)"
      by (intro andthen_no_assertion for_each_no_assertion getitem_no_assertion
          generate_text_special_no_assertion concat_axis1_no_assertion)
    with Some Cons show ?thesis by (simp add: generate_features_text_special_def)
  qed
qed

lemma do_transform_no_assertion: "\<not> raises_assertion (do_transform U self X)"
  by (cases "klass self") (simp_all add: do_transform_def generate_features_no_assertion, simp add: raises_assertion_def)

lemma do_fit_transform_no_assertion: "\<not> raises_assertion (do_fit_transform U self X)"
proof (cases "klass self")
  case AbstractFeatureGenerator
  then show ?thesis by (simp add: do_fit_transform_def raises_assertion_def)
next
  case (TextSpecialFeatureGenerator symbols)
  have "\<not> raises_assertion (andthen (do_transform U self X) (\<lambda>X_out.
            Inr (X_out, [S_TEXT_SPECIAL \<mapsto> columns X_out])))"
    by (intro andthen_no_assertion do_transform_no_assertion Inr_no_assertion)
  with TextSpecialFeatureGenerator show ?thesis by (simp add: do_fit_transform_def)
qed

lemma fit_transform_unfit_no_assertion:
  "\<not> is_fit self \<Longrightarrow> \<not> raises_assertion (fst (fit_transform U T self X))"
proof -
  assume nf: "\<not> is_fit self"
  define self' where "self' = (if features_in self = None then self\<lparr>features_in := Some (columns X)\<rparr> else self)"
  define r where "r = andthen (getitem_list X (features_in self')) (do_fit_transform U self')"
  have r: "\<not> raises_assertion r" unfolding r_def
    by (intro andthen_no_assertion getitem_list_no_assertion do_fit_transform_no_assertion)
  have "fst (fit_transform U T self X) = map_sum id fst r"
    using nf unfolding fit_transform_def Let_def self'_def [symmetric] r_def [symmetric]
    by (cases r) (simp_all split: prod.splits)
  with r show ?thesis by (cases r) (simp_all add: raises_assertion_def)
qed

lemma transform_fit_no_assertion:
  "is_fit self \<Longrightarrow> \<not> raises_assertion (fst (transform U self X))"
  by (simp add: transform_def andthen_no_assertion getitem_list_no_assertion do_transform_no_assertion)

text \<open>
  Claim C2, as amended. For every generator, \<open>fit_transform\<close> on a generator that is
  already fit (so also a second call after a successful one) raises an AssertionError,
  \<open>transform\<close> on a generator that is not fit raises an AssertionError, and an
  AssertionError comes from these two conditions only. They are not the only errors that
  the code raises itself: \<open>fit\<close> raises NotImplementedError on every generator, and so do
  \<open>_fit_transform\<close> and \<open>_transform\<close> of the base class.
\<close>

theorem fit_state_errors:
  "(is_fit self \<longrightarrow> fit_transform U T self X = (Inl (AssertionError ''FeatureGenerator is already fit.''), self))
 \<and> (\<not> is_fit self \<longrightarrow> transform U self X = (Inl (AssertionError ''FeatureGenerator is not fit.''), self))
 \<and> (\<forall>Y self'. fit_transform U T self X = (Inr Y, self') \<longrightarrow>
       fit_transform U T self' X' = (Inl (AssertionError ''FeatureGenerator is already fit.''), self'))
 \<and> (raises_assertion (fst (fit_transform U T self X)) \<longrightarrow> is_fit self)
 \<and> (raises_assertion (fst (transform U self X)) \<longrightarrow> \<not> is_fit self)
 \<and> fit self X = (Inl NotImplementedError, self)
 \<and> (klass self = AbstractFeatureGenerator \<longrightarrow>
       do_fit_transform U self X = Inl NotImplementedError \<and> do_transform U self X = Inl NotImplementedError)"
proof (intro conjI impI allI)
  show "fit_transform U T self X = (Inl (AssertionError ''FeatureGenerator is already fit.''), self)" if "is_fit self"
    using that by (simp add: fit_transform_def)
  show "transform U self X = (Inl (AssertionError ''FeatureGenerator is not fit.''), self)" if "\<not> is_fit self"
    using that by (simp add: transform_def)
  show "fit_transform U T self' X' = (Inl (AssertionError ''FeatureGenerator is already fit.''), self')"
    if "fit_transform U T self X = (Inr Y, self')" for Y self'
  proof -
    have "is_fit self'" using that
      by (auto simp: fit_transform_def Let_def split: if_splits sum.splits prod.splits)
    then show ?thesis by (simp add: fit_transform_def)
  qed
  show "is_fit self" if "raises_assertion (fst (fit_transform U T self X))"
    using that fit_transform_unfit_no_assertion by blast
  show "\<not> is_fit self" if "raises_assertion (fst (transform U self X))"
    using that transform_fit_no_assertion by blast
  show "fit self X = (Inl NotImplementedError, self)" by (simp add: fit_def)
  show "do_fit_transform U self X = Inl NotImplementedError" if "klass self = AbstractFeatureGenerator"
    using that by (simp add: do_fit_transform_def)
  show "do_transform U self X = Inl NotImplementedError" if "klass self = AbstractFeatureGenerator"
    using that by (simp add: do_transform_def)
qed

text \<open>The example generator before and after its fit, and an object of the base class.\<close>

theorem fit_state_errors_witness:
  "is_fit (ex_fitted ex_symbols)
   \<and> fit_transform ucd_sample (\<lambda>X_out. ()) (ex_fitted ex_symbols) ex_table
       = (Inl (AssertionError ''FeatureGenerator is already fit.''), ex_fitted ex_symbols)
   \<and> \<not> is_fit (ex_gen ex_symbols)
   \<and> transform ucd_sample (ex_gen ex_symbols) ex_table
       = (Inl (AssertionError ''FeatureGenerator is not fit.''), ex_gen ex_symbols)
   \<and> fit_transform ucd_sample (\<lambda>X_out. ()) (ex_gen ex_symbols) ex_table
       = (Inr \<lparr>index = [0, 1, 2], data = transformed_data ucd_sample ex_symbols [lit ''text''] ex_table\<rparr>,
          ex_fitted ex_symbols)
   \<and> raises_assertion (fst (fit_transform ucd_sample (\<lambda>X_out. ()) (ex_fitted ex_symbols) ex_table))
   \<and> raises_assertion (fst (transform ucd_sample (ex_gen ex_symbols) ex_table))
   \<and> fit (ex_gen ex_symbols) ex_table = (Inl NotImplementedError, ex_gen ex_symbols)
   \<and> klass ex_abstract = AbstractFeatureGenerator
   \<and> do_fit_transform ucd_sample ex_abstract ex_table = Inl NotImplementedError
   \<and> do_transform ucd_sample ex_abstract ex_table = Inl NotImplementedError"
proof -
  have a: "is_fit (ex_fitted ex_symbols)" "\<not> is_fit (ex_gen ex_symbols)"
    "klass ex_abstract = AbstractFeatureGenerator"
    by (simp_all add: ex_fitted_facts ex_gen_facts ex_abstract_def init_def)
  note f = ex_fit_transform [of ex_symbols]
  note c1 = fit_state_errors [of "ex_fitted ex_symbols" ucd_sample "\<lambda>X_out. ()" ex_table ex_table]
  note c2 = fit_state_errors [of "ex_gen ex_symbols" ucd_sample "\<lambda>X_out. ()" ex_table ex_table]
  note c3 = fit_state_errors [of ex_abstract ucd_sample "\<lambda>X_out. ()" ex_table ex_table]
  have 1: "fit_transform ucd_sample (\<lambda>X_out. ()) (ex_fitted ex_symbols) ex_table
       = (Inl (AssertionError ''FeatureGenerator is already fit.''), ex_fitted ex_symbols)"
    using c1 a(1) by blast
  have 2: "transform ucd_sample (ex_gen ex_symbols) ex_table
       = (Inl (AssertionError ''FeatureGenerator is not fit.''), ex_gen ex_symbols)"
    using c2 a(2) by blast
  have 3: "fit (ex_gen ex_symbols) ex_table = (Inl NotImplementedError, ex_gen ex_symbols)"
    using c2 by blast
  have 4: "do_fit_transform ucd_sample ex_abstract ex_table = Inl NotImplementedError"
    "do_transform ucd_sample ex_abstract ex_table = Inl NotImplementedError"
    using c3 a(3) by blast+
  have 5: "raises_assertion (fst (fit_transform ucd_sample (\<lambda>X_out. ()) (ex_fitted ex_symbols) ex_table))"
    "raises_assertion (fst (transform ucd_sample (ex_gen ex_symbols) ex_table))"
    unfolding 1 2 by (simp_all add: raises_assertion_def)
  show ?thesis
    using a f 1 2 3 4 5 by (intro conjI)
qed

text \<open>
  \<open>fit\<close> on the fitted text generator of the example raises NotImplementedError, which
  is neither of the two assertion errors.
\<close>

theorem fit_not_implemented_counterexample:
  "fit (ex_fitted ex_symbols) ex_table = (Inl NotImplementedError, ex_fitted ex_symbols)
   \<and> \<not> raises_assertion (fst (fit (ex_fitted ex_symbols) ex_table))"
  by (simp add: fit_def raises_assertion_def)

end
